theory Spec2Isabelle
  imports Complex_Main
begin

section \<open>Pixels, bitmaps and the browser\<close>

text \<open>
  The image processor (\<open>useImageProcessor\<close>) works on in-memory bitmaps through the
  2D canvas. A bitmap is a width, a height and one RGBA pixel for every position; a loaded
  \<open>HTMLImageElement\<close> and the backing store of a canvas are both bitmaps. Only the
  pixels at \<open>x < width\<close>, \<open>y < height\<close> are content. JavaScript numbers are
  modelled as reals and pixel counts as natural numbers; the arithmetic is exact, except
  in \<open>letterboxImage\<close>, where the canvas size is cut out of computed quotients and
  products and the rounding of each operation is kept.
\<close>

record rgba =
  red :: nat
  green :: nat
  blue :: nat
  alpha :: nat

record bitmap =
  width :: nat
  height :: nat
  pixel :: "nat \<Rightarrow> nat \<Rightarrow> rgba"

text \<open>What a promise of the source rejects with, or what the function throws.\<close>

datatype error =
  ImageLoadError
  | JsError string
  | TypeError
  | IndexSizeError
  | ApiError string

text \<open>
  The browser is a parameter of every operation: how a URL decodes to a bitmap
  (\<open>None\<close> when the image element fires \<open>onerror\<close>), whether
  \<open>getContext('2d')\<close> yields a context, how \<open>toDataURL('image/png')\<close> encodes a
  canvas, which colour a CSS colour string sets as \<open>fillStyle\<close>, how a pixel is
  composited over one that is not transparent, how a scaled \<open>drawImage\<close> resamples
  (\<open>resample img dx dy dw dh X Y old\<close> is the new value of canvas pixel \<open>(X, Y)\<close>),
  and when the image loads that \<open>mixImages\<close> starts complete: \<open>loadTime r c\<close> is the
  moment at which the load started for cell \<open>(r, c)\<close> fires \<open>onload\<close>.
\<close>

record platform =
  decodeImage :: "string \<Rightarrow> bitmap option"
  context2d :: bool
  toDataURL :: "bitmap \<Rightarrow> string"
  fillColor :: "string \<Rightarrow> rgba"
  blend :: "rgba \<Rightarrow> rgba \<Rightarrow> rgba"
  resample :: "bitmap \<Rightarrow> real \<Rightarrow> real \<Rightarrow> real \<Rightarrow> real \<Rightarrow> nat \<Rightarrow> nat \<Rightarrow> rgba \<Rightarrow> rgba"
  loadTime :: "nat \<Rightarrow> nat \<Rightarrow> nat"

text \<open>\<open>loadImage\<close>: resolves with the decoded image, rejects with the error event.\<close>

definition loadImage :: "platform \<Rightarrow> string \<Rightarrow> error + bitmap" where
  "loadImage pf src =
     (case decodeImage pf src of Some img \<Rightarrow> Inr img | None \<Rightarrow> Inl ImageLoadError)"

definition transparent :: rgba where
  "transparent = \<lparr>red = 0, green = 0, blue = 0, alpha = 0\<rparr>"

text \<open>\<open>document.createElement('canvas')\<close> followed by the assignments to
  \<open>canvas.width\<close> and \<open>canvas.height\<close>: a cleared canvas of that size.\<close>

definition createCanvas :: "nat \<Rightarrow> nat \<Rightarrow> bitmap" where
  "createCanvas w h = \<lparr>width = w, height = h, pixel = (\<lambda>x y. transparent)\<rparr>"

text \<open>
  \<open>canvas.width\<close> and \<open>canvas.height\<close> are \<open>unsigned long\<close> attributes: a number
  assigned to them is cut to its integer part. (For the values that occur here, between
  0 and 1500.)
\<close>

definition toUnsignedLong :: "real \<Rightarrow> nat" where
  "toUnsignedLong v = nat \<lfloor>v\<rfloor>"

text \<open>Source-over compositing of a pixel onto the canvas: onto a transparent pixel it
  stores the source pixel (the rounding of premultiplied storage is not modelled).\<close>

definition over :: "platform \<Rightarrow> rgba \<Rightarrow> rgba \<Rightarrow> rgba" where
  "over pf s d = (if alpha d = 0 then s else blend pf s d)"

text \<open>\<open>ctx.fillRect(x, y, w, h)\<close> with whole-pixel arguments and fill colour \<open>col\<close>.\<close>

definition fillRect :: "platform \<Rightarrow> bitmap \<Rightarrow> rgba \<Rightarrow> nat \<Rightarrow> nat \<Rightarrow> nat \<Rightarrow> nat \<Rightarrow> bitmap" where
  "fillRect pf cv col x y w h =
     cv\<lparr>pixel := (\<lambda>X Y.
        if X < width cv \<and> Y < height cv \<and> x \<le> X \<and> X < x + w \<and> y \<le> Y \<and> Y < y + h
        then over pf col (pixel cv X Y) else pixel cv X Y)\<rparr>"

text \<open>
  The context state the flips use: the canvas and the current transformation, here an
  axis scale \<open>(m_a, m_d)\<close> and a translation \<open>(m_e, m_f)\<close>, so that the user-space
  point \<open>(u, v)\<close> lies at \<open>(m_a * u + m_e, m_d * v + m_f)\<close> on the canvas.
\<close>

record ctx2d =
  surface :: bitmap
  m_a :: int
  m_d :: int
  m_e :: int
  m_f :: int

definition getContext :: "bitmap \<Rightarrow> ctx2d" where
  "getContext cv = \<lparr>surface = cv, m_a = 1, m_d = 1, m_e = 0, m_f = 0\<rparr>"

definition ctx_translate :: "ctx2d \<Rightarrow> int \<Rightarrow> int \<Rightarrow> ctx2d" where
  "ctx_translate ctx tx ty = ctx\<lparr>m_e := m_e ctx + m_a ctx * tx, m_f := m_f ctx + m_d ctx * ty\<rparr>"

definition ctx_scale :: "ctx2d \<Rightarrow> int \<Rightarrow> int \<Rightarrow> ctx2d" where
  "ctx_scale ctx kx ky = ctx\<lparr>m_a := m_a ctx * kx, m_d := m_d ctx * ky\<rparr>"

text \<open>
  Which source column lands on canvas column \<open>X\<close> when an image is drawn at user-space
  \<open>dx\<close> in its own size under a scale of \<open>1\<close> or \<open>-1\<close> (the only ones the source
  sets): source column \<open>i\<close> covers the user-space interval \<open>[dx + i, dx + i + 1]\<close>, which
  the transformation maps onto exactly one canvas column.
\<close>

definition sourceIndex :: "int \<Rightarrow> int \<Rightarrow> int \<Rightarrow> nat \<Rightarrow> int" where
  "sourceIndex m t d X = (if 0 < m then int X - t - d else t - 1 - int X - d)"

text \<open>\<open>ctx.drawImage(img, dx, dy)\<close>: the image in its own size, pixel for pixel.\<close>

definition ctx_drawImage :: "platform \<Rightarrow> ctx2d \<Rightarrow> bitmap \<Rightarrow> int \<Rightarrow> int \<Rightarrow> ctx2d" where
  "ctx_drawImage pf ctx img dx dy =
     (let cv = surface ctx in
      ctx\<lparr>surface := cv\<lparr>pixel := (\<lambda>X Y.
        let i = sourceIndex (m_a ctx) (m_e ctx) dx X;
            j = sourceIndex (m_d ctx) (m_f ctx) dy Y
        in if X < width cv \<and> Y < height cv \<and>
              0 \<le> i \<and> i < int (width img) \<and> 0 \<le> j \<and> j < int (height img)
           then over pf (pixel img (nat i) (nat j)) (pixel cv X Y)
           else pixel cv X Y)\<rparr>\<rparr>)"

text \<open>
  \<open>ctx.drawImage(src, sx, sy, w, h, 0, 0, w, h)\<close> under the identity transformation:
  the \<open>w x h\<close> region of the source at \<open>(sx, sy)\<close> copied to the origin in the same
  size; the part of the region outside the source draws nothing.
\<close>

definition drawImageRegion :: "platform \<Rightarrow> bitmap \<Rightarrow> bitmap \<Rightarrow> int \<Rightarrow> int \<Rightarrow> nat \<Rightarrow> nat \<Rightarrow> bitmap" where
  "drawImageRegion pf cv src sx sy w h =
     cv\<lparr>pixel := (\<lambda>X Y.
        let i = sx + int X; j = sy + int Y
        in if X < width cv \<and> Y < height cv \<and> X < w \<and> Y < h \<and>
              0 \<le> i \<and> i < int (width src) \<and> 0 \<le> j \<and> j < int (height src)
           then over pf (pixel src (nat i) (nat j)) (pixel cv X Y)
           else pixel cv X Y)\<rparr>"

text \<open>
  \<open>ctx.drawImage(img, dx, dy, dw, dh)\<close> with a scaled destination rectangle. The draw
  changes only the canvas pixels that the rectangle touches; what it writes there is the
  browser's resampling.
\<close>

definition touches :: "real \<Rightarrow> real \<Rightarrow> real \<Rightarrow> real \<Rightarrow> nat \<Rightarrow> nat \<Rightarrow> bool" where
  "touches dx dy dw dh X Y =
     (dx < real X + 1 \<and> real X < dx + dw \<and> dy < real Y + 1 \<and> real Y < dy + dh)"

definition drawImageScaled :: "platform \<Rightarrow> bitmap \<Rightarrow> bitmap \<Rightarrow> real \<Rightarrow> real \<Rightarrow> real \<Rightarrow> real \<Rightarrow> bitmap" where
  "drawImageScaled pf cv img dx dy dw dh =
     cv\<lparr>pixel := (\<lambda>X Y.
        if X < width cv \<and> Y < height cv \<and> touches dx dy dw dh X Y
        then resample pf img dx dy dw dh X Y (pixel cv X Y) else pixel cv X Y)\<rparr>"

text \<open>
  \<open>ctx.getImageData(0, 0, canvas.width, canvas.height).data\<close>: the bytes of the canvas,
  four per pixel, row by row. The scan reads it only below \<open>4 * width * height\<close>.
\<close>

definition getImageData :: "bitmap \<Rightarrow> nat \<Rightarrow> nat" where
  "getImageData cv i =
     (let p = pixel cv ((i div 4) mod width cv) ((i div 4) div width cv)
      in if i mod 4 = 0 then red p else if i mod 4 = 1 then green p
         else if i mod 4 = 2 then blue p else alpha p)"

section \<open>flipImage and manualCrop\<close>

datatype direction = Horizontal | Vertical

text \<open>The canvas \<open>flipImage\<close> has drawn when it encodes it.\<close>

definition flipCanvas :: "platform \<Rightarrow> bitmap \<Rightarrow> direction \<Rightarrow> bitmap" where
  "flipCanvas pf img dir =
     (let canvas = createCanvas (width img) (height img);
          ctx = getContext canvas;
          ctx1 = (if dir = Horizontal
                  then ctx_scale (ctx_translate ctx (int (width canvas)) 0) (- 1) 1
                  else ctx_scale (ctx_translate ctx 0 (int (height canvas))) 1 (- 1));
          ctx2 = ctx_drawImage pf ctx1 img 0 0
      in surface ctx2)"

definition flipImage :: "platform \<Rightarrow> string \<Rightarrow> direction \<Rightarrow> error + string" where
  "flipImage pf imageDataUrl dir =
     (case loadImage pf imageDataUrl of
        Inl e \<Rightarrow> Inl e
      | Inr img \<Rightarrow>
          if \<not> context2d pf then Inl (JsError ''Could not get canvas context'')
          else Inr (toDataURL pf (flipCanvas pf img dir)))"



section \<open>autoCrop\<close>

record rgb =
  rgb_r :: nat
  rgb_g :: nat
  rgb_b :: nat

text \<open>
  \<open>hexToRgb\<close>: the pattern \<open>/^#?([a-f\d]{2})([a-f\d]{2})([a-f\d]{2})$/i\<close> accepts an
  optional \<open>#\<close> followed by exactly six hexadecimal digits of either case, and each pair
  is read with \<open>parseInt(_, 16)\<close>; anything else gives \<open>null\<close>.
\<close>

definition hexDigit :: "char \<Rightarrow> nat option" where
  "hexDigit ch =
     (let n = of_char ch :: nat in
      if 48 \<le> n \<and> n \<le> 57 then Some (n - 48)
      else if 97 \<le> n \<and> n \<le> 102 then Some (n - 87)
      else if 65 \<le> n \<and> n \<le> 70 then Some (n - 55)
      else None)"

definition hexPair :: "char \<Rightarrow> char \<Rightarrow> nat option" where
  "hexPair hi lo =
     (case (hexDigit hi, hexDigit lo) of
        (Some h, Some l) \<Rightarrow> Some (16 * h + l)
      | _ \<Rightarrow> None)"

definition hexToRgb :: "string \<Rightarrow> rgb option" where
  "hexToRgb hex =
     (let digits = (case hex of [] \<Rightarrow> [] | ch # rest \<Rightarrow> if ch = CHR ''#'' then rest else hex)
      in case digits of
           [r1, r2, g1, g2, b1, b2] \<Rightarrow>
             (case (hexPair r1 r2, hexPair g1 g2, hexPair b1 b2) of
                (Some r, Some g, Some b) \<Rightarrow> Some \<lparr>rgb_r = r, rgb_g = g, rgb_b = b\<rparr>
              | _ \<Rightarrow> None)
         | _ \<Rightarrow> None)"

text \<open>\<open>const cropColor = cropColorHex ? hexToRgb(cropColorHex) : null\<close>: a missing or
  empty argument is falsy.\<close>

definition cropColorOf :: "string option \<Rightarrow> rgb option" where
  "cropColorOf cropColorHex =
     (case cropColorHex of
        None \<Rightarrow> None
      | Some hex \<Rightarrow> if hex = [] then None else hexToRgb hex)"

text \<open>The default of the parameter \<open>tolerance: number = 20\<close>.\<close>

definition toleranceOf :: "real option \<Rightarrow> real" where
  "toleranceOf t = (case t of None \<Rightarrow> 20 | Some v \<Rightarrow> v)"

text \<open>The test on one pixel, from its four bytes.\<close>

definition isContent :: "rgb option \<Rightarrow> real \<Rightarrow> nat \<Rightarrow> nat \<Rightarrow> nat \<Rightarrow> nat \<Rightarrow> bool" where
  "isContent cropColor tolerance r g b a =
     (case cropColor of
        Some cc \<Rightarrow>
          (let distance = sqrt ((real r - real (rgb_r cc))\<^sup>2 + (real g - real (rgb_g cc))\<^sup>2
                                + (real b - real (rgb_b cc))\<^sup>2)
           in distance > tolerance \<and> a > 0)
      | None \<Rightarrow> a > 0)"

text \<open>The four running bounds of the scan.\<close>

record bounds =
  minX :: int
  minY :: int
  maxX :: int
  maxY :: int

text \<open>The body of the inner loop at \<open>(x, y)\<close>: read the pixel's bytes from the flat data
  and widen the bounds when it is content.\<close>

definition visitPixel ::
  "(nat \<Rightarrow> nat) \<Rightarrow> nat \<Rightarrow> rgb option \<Rightarrow> real \<Rightarrow> nat \<Rightarrow> nat \<Rightarrow> bounds \<Rightarrow> bounds" where
  "visitPixel data canvasWidth cropColor tolerance y x bb =
     (let i = (y * canvasWidth + x) * 4;
          r = data i;
          g = data (i + 1);
          b = data (i + 2);
          a = data (i + 3)
      in if isContent cropColor tolerance r g b a
         then (let bb1 = (if int x < minX bb then bb\<lparr>minX := int x\<rparr> else bb);
                   bb2 = (if int x > maxX bb1 then bb1\<lparr>maxX := int x\<rparr> else bb1);
                   bb3 = (if int y < minY bb2 then bb2\<lparr>minY := int y\<rparr> else bb2);
                   bb4 = (if int y > maxY bb3 then bb3\<lparr>maxY := int y\<rparr> else bb3)
               in bb4)
         else bb)"

text \<open>The two nested \<open>for\<close> loops, rows outside and columns inside, from
  \<open>minX = canvas.width, minY = canvas.height, maxX = -1, maxY = -1\<close>.\<close>

definition scanRow ::
  "(nat \<Rightarrow> nat) \<Rightarrow> nat \<Rightarrow> rgb option \<Rightarrow> real \<Rightarrow> nat \<Rightarrow> bounds \<Rightarrow> bounds" where
  "scanRow data canvasWidth cropColor tolerance y bb =
     fold (visitPixel data canvasWidth cropColor tolerance y) [0..<canvasWidth] bb"

definition scanImage ::
  "(nat \<Rightarrow> nat) \<Rightarrow> nat \<Rightarrow> nat \<Rightarrow> rgb option \<Rightarrow> real \<Rightarrow> bounds" where
  "scanImage data canvasWidth canvasHeight cropColor tolerance =
     fold (scanRow data canvasWidth cropColor tolerance) [0..<canvasHeight]
       \<lparr>minX = int canvasWidth, minY = int canvasHeight, maxX = - 1, maxY = - 1\<rparr>"

text \<open>
  \<open>autoCrop\<close>. \<open>getImageData\<close> throws an \<open>IndexSizeError\<close> for a region of zero
  width or height.
\<close>

definition autoCrop :: "platform \<Rightarrow> string \<Rightarrow> string option \<Rightarrow> real option \<Rightarrow> error + string" where
  "autoCrop pf imageDataUrl cropColorHex tolerance =
     (case loadImage pf imageDataUrl of
        Inl e \<Rightarrow> Inl e
      | Inr img \<Rightarrow>
          (let canvas0 = createCanvas (width img) (height img) in
           if \<not> context2d pf then Inl (JsError ''Could not get canvas context'')
           else
            (let canvas = surface (ctx_drawImage pf (getContext canvas0) img 0 0) in
             if width canvas = 0 \<or> height canvas = 0 then Inl IndexSizeError
             else
              (let data = getImageData canvas;
                   cropColor = cropColorOf cropColorHex;
                   bb = scanImage data (width canvas) (height canvas) cropColor
                          (toleranceOf tolerance)
               in if maxX bb = - 1 then Inr imageDataUrl
                  else
                   (let w = maxX bb - minX bb + 1;
                        h = maxY bb - minY bb + 1;
                        cropCanvas = createCanvas (nat w) (nat h)
                    in Inr (toDataURL pf
                         (drawImageRegion pf cropCanvas canvas (minX bb) (minY bb)
                            (nat w) (nat h))))))))"

text \<open>What the claims say about the scan, independently of how it is computed: the
  pixel at \<open>(x, y)\<close> of the image is content.\<close>

definition contentAt :: "bitmap \<Rightarrow> rgb option \<Rightarrow> real \<Rightarrow> nat \<Rightarrow> nat \<Rightarrow> bool" where
  "contentAt img cropColor tolerance x y =
     (x < width img \<and> y < height img \<and>
      isContent cropColor tolerance (red (pixel img x y)) (green (pixel img x y))
        (blue (pixel img x y)) (alpha (pixel img x y)))"

section \<open>Notions used to reason about the canvas and the scan\<close>

text \<open>None of these is computed by the source; they name what the proofs talk about:
  the canvas after \<open>drawImage(img, 0, 0)\<close> on a cleared canvas of the image's size,
  the content test read off the canvas pixels, the box widened by one point, one step of
  the scan in that form, and the order in which the two loops visit the pixels.\<close>

definition widen :: "nat \<Rightarrow> nat \<Rightarrow> bounds \<Rightarrow> bounds" where
  "widen x y bb = \<lparr>minX = min (minX bb) (int x), minY = min (minY bb) (int y),
                   maxX = max (maxX bb) (int x), maxY = max (maxY bb) (int y)\<rparr>"

definition copyCanvas :: "platform \<Rightarrow> bitmap \<Rightarrow> bitmap" where
  "copyCanvas pf img = surface (ctx_drawImage pf (getContext (createCanvas (width img) (height img))) img 0 0)"

definition scanStep :: "(nat \<Rightarrow> nat \<Rightarrow> bool) \<Rightarrow> nat \<times> nat \<Rightarrow> bounds \<Rightarrow> bounds" where
  "scanStep C p bb = (if C (fst p) (snd p) then widen (fst p) (snd p) bb else bb)"

definition scanOrder :: "nat \<Rightarrow> nat \<Rightarrow> (nat \<times> nat) list" where
  "scanOrder w h = concat (map (\<lambda>y. map (\<lambda>x. (x, y)) [0..<w]) [0..<h])"

definition pixelContent :: "bitmap \<Rightarrow> rgb option \<Rightarrow> real \<Rightarrow> nat \<Rightarrow> nat \<Rightarrow> bool" where
  "pixelContent cv cc t x y =
     isContent cc t (red (pixel cv x y)) (green (pixel cv x y)) (blue (pixel cv x y))
       (alpha (pixel cv x y))"

section \<open>letterboxImage\<close>

text \<open>
  The layout of \<open>letterboxImage\<close> is computed in JavaScript numbers, and the canvas
  size is the integer part of the result, so the rounding of each operation is kept
  here: every arithmetic operation yields the double nearest to its exact result, ties
  going to the even significand. For a number of magnitude in \<open>[2^e, 2^(e+1))\<close> the
  doubles are the multiples of \<open>2^(e - 52)\<close>. Overflow and the subnormal range are
  not modelled: the definition is that of a double for magnitudes between
  \<open>2^-1022\<close> and \<open>2^1024\<close>, and the statements about \<open>letterboxImage\<close> keep the
  target ratio in a range where every intermediate result lies well inside.
\<close>

definition roundToEven :: "real \<Rightarrow> int" where
  "roundToEven q =
     (let f = \<lfloor>q\<rfloor>; r = q - of_int f
      in if r < 1 / 2 then f else if 1 / 2 < r then f + 1 else if even f then f else f + 1)"

definition nearestDouble :: "real \<Rightarrow> real" where
  "nearestDouble x =
     (if x = 0 then 0
      else (let e = \<lfloor>log 2 \<bar>x\<bar>\<rfloor>; ulp = 2 powr (of_int e - 52)
            in of_int (roundToEven (x / ulp)) * ulp))"

text \<open>
  The numbers \<open>letterboxImage\<close> computes from the image size and the target aspect
  ratio, in the order of the source. \<open>canvasWidth\<close> and \<open>canvasHeight\<close> are the
  local variables of that name; \<open>canvas_width\<close> and \<open>canvas_height\<close> are what
  \<open>canvas.width\<close> and \<open>canvas.height\<close> hold after the assignment, and what the
  offsets read back. The image size and the constants are whole numbers, which are
  doubles.
\<close>

record letterbox =
  canvasWidth :: real
  canvasHeight :: real
  scale :: real
  canvas_width :: nat
  canvas_height :: nat
  scaledImgWidth :: real
  scaledImgHeight :: real
  offsetX :: real
  offsetY :: real

definition letterboxGeometry :: "nat \<Rightarrow> nat \<Rightarrow> real \<Rightarrow> letterbox" where
  "letterboxGeometry img_width img_height targetAspectRatio =
     (let imgRatio = nearestDouble (real img_width / real img_height);
          cw = (if imgRatio > targetAspectRatio then real img_width
                else nearestDouble (real img_height * targetAspectRatio));
          ch = (if imgRatio > targetAspectRatio
                then nearestDouble (real img_width / targetAspectRatio)
                else real img_height);
          s = min (nearestDouble (1500 / cw)) (min (nearestDouble (1500 / ch)) 1);
          w = toUnsignedLong (nearestDouble (cw * s));
          h = toUnsignedLong (nearestDouble (ch * s));
          sw = nearestDouble (real img_width * s);
          sh = nearestDouble (real img_height * s)
      in \<lparr>canvasWidth = cw, canvasHeight = ch, scale = s,
          canvas_width = w, canvas_height = h,
          scaledImgWidth = sw, scaledImgHeight = sh,
          offsetX = nearestDouble (nearestDouble (real w - sw) / 2),
          offsetY = nearestDouble (nearestDouble (real h - sh) / 2)\<rparr>)"

text \<open>The canvas \<open>letterboxImage\<close> has drawn when it encodes it: filled with the
  background, then the image drawn scaled at the offsets.\<close>

definition letterboxCanvas :: "platform \<Rightarrow> bitmap \<Rightarrow> real \<Rightarrow> string \<Rightarrow> bitmap" where
  "letterboxCanvas pf img targetAspectRatio backgroundColor =
     (let g = letterboxGeometry (width img) (height img) targetAspectRatio;
          canvas = createCanvas (canvas_width g) (canvas_height g);
          filled = fillRect pf canvas (fillColor pf backgroundColor) 0 0 (width canvas) (height canvas)
      in drawImageScaled pf filled img (offsetX g) (offsetY g) (scaledImgWidth g) (scaledImgHeight g))"

text \<open>The default of the parameter \<open>backgroundColor: string = '#FFFFFF'\<close>.\<close>

definition backgroundOf :: "string option \<Rightarrow> string" where
  "backgroundOf backgroundColor = (case backgroundColor of None \<Rightarrow> ''#FFFFFF'' | Some c \<Rightarrow> c)"

text \<open>\<open>letterboxImage\<close>: load the image, lay out the canvas, fill, draw, encode. A
  target aspect ratio that is not positive is outside the model (the source then divides
  by zero or sets a negative canvas size).\<close>

definition letterboxImage :: "platform \<Rightarrow> string \<Rightarrow> real \<Rightarrow> string option \<Rightarrow> error + string" where
  "letterboxImage pf imageDataUrl targetAspectRatio backgroundColor =
     (case loadImage pf imageDataUrl of
        Inl e \<Rightarrow> Inl e
      | Inr img \<Rightarrow>
          if \<not> context2d pf then Inl (JsError ''Could not get canvas context'')
          else Inr (toDataURL pf
                 (letterboxCanvas pf img targetAspectRatio (backgroundOf backgroundColor))))"

section \<open>mixImages\<close>

text \<open>
  The grid is \<open>GridState\<close>, rows of cells that hold a data URL or \<open>null\<close>. One
  \<open>drawImage\<close> call of the collage is recorded as a placement: the image and its
  destination rectangle. The call sits in the \<open>then\<close> callback of the image's load, so
  each placement is recorded with the moment at which that load completes.
\<close>

type_synonym gridState = "string option list list"

record placement =
  p_img :: bitmap
  p_dx :: real
  p_dy :: real
  p_dw :: real
  p_dh :: real

text \<open>
  \<open>gridImages[r][c]\<close>: indexing a missing row throws a \<open>TypeError\<close>; a missing
  cell of an existing row reads \<open>undefined\<close>, which is falsy like \<open>null\<close>.
\<close>

definition cellAt :: "gridState \<Rightarrow> nat \<Rightarrow> nat \<Rightarrow> error + string option" where
  "cellAt gridImages r c =
     (if r < length gridImages
      then (if c < length (gridImages ! r) then Inr ((gridImages ! r) ! c) else Inr None)
      else Inl TypeError)"

text \<open>
  The body of the inner loop at \<open>(r, c)\<close>: for a truthy cell (a non-empty string) the
  image is loaded and, when the load succeeds, drawn at the cell's rectangle; a failed
  load is caught and logged with \<open>console.error\<close>, and nothing is drawn.
\<close>

definition cellPlacement ::
  "platform \<Rightarrow> gridState \<Rightarrow> real \<Rightarrow> real \<Rightarrow> real \<Rightarrow> nat \<Rightarrow> nat
     \<Rightarrow> error + (nat \<times> placement) list" where
  "cellPlacement pf gridImages padding cellWidth cellHeight r c =
     (case cellAt gridImages r c of
        Inl e \<Rightarrow> Inl e
      | Inr imgSrc \<Rightarrow>
          (case imgSrc of
             None \<Rightarrow> Inr []
           | Some src \<Rightarrow>
               if src = [] then Inr []
               else (case loadImage pf src of
                       Inr img \<Rightarrow>
                         (let dx = padding + real c * (cellWidth + padding);
                              dy = padding + real r * (cellHeight + padding)
                          in Inr [(loadTime pf r c,
                                   \<lparr>p_img = img, p_dx = dx, p_dy = dy,
                                    p_dw = cellWidth, p_dh = cellHeight\<rparr>)])
                     | Inl e \<Rightarrow> Inr [])))"

text \<open>The loops \<open>for (let c = 0; c < cols; c++)\<close> and
  \<open>for (let r = 0; r < rows; r++)\<close>, over the indices still to visit.\<close>

fun colLoop ::
  "platform \<Rightarrow> gridState \<Rightarrow> real \<Rightarrow> real \<Rightarrow> real \<Rightarrow> nat \<Rightarrow> nat list
     \<Rightarrow> error + (nat \<times> placement) list" where
  "colLoop pf gridImages padding cellWidth cellHeight r [] = Inr []"
| "colLoop pf gridImages padding cellWidth cellHeight r (c # cs) =
     (case cellPlacement pf gridImages padding cellWidth cellHeight r c of
        Inl e \<Rightarrow> Inl e
      | Inr ps \<Rightarrow>
          (case colLoop pf gridImages padding cellWidth cellHeight r cs of
             Inl e \<Rightarrow> Inl e
           | Inr qs \<Rightarrow> Inr (ps @ qs)))"

fun rowLoop ::
  "platform \<Rightarrow> gridState \<Rightarrow> real \<Rightarrow> real \<Rightarrow> real \<Rightarrow> nat \<Rightarrow> nat list
     \<Rightarrow> error + (nat \<times> placement) list" where
  "rowLoop pf gridImages padding cellWidth cellHeight cols [] = Inr []"
| "rowLoop pf gridImages padding cellWidth cellHeight cols (r # rs) =
     (case colLoop pf gridImages padding cellWidth cellHeight r [0..<cols] of
        Inl e \<Rightarrow> Inl e
      | Inr ps \<Rightarrow>
          (case rowLoop pf gridImages padding cellWidth cellHeight cols rs of
             Inl e \<Rightarrow> Inl e
           | Inr qs \<Rightarrow> Inr (ps @ qs)))"

text \<open>One recorded \<open>ctx.drawImage(img, dx, dy, cellWidth, cellHeight)\<close>.\<close>

definition place :: "platform \<Rightarrow> bitmap \<Rightarrow> placement \<Rightarrow> bitmap" where
  "place pf cv p = drawImageScaled pf cv (p_img p) (p_dx p) (p_dy p) (p_dw p) (p_dh p)"

text \<open>The order in which the recorded draws happen: each image is drawn when its load
  completes, and loads that complete at the same moment are taken in the order in which
  they were started.\<close>

definition drawOrder :: "(nat \<times> placement) list \<Rightarrow> placement list" where
  "drawOrder ps = map snd (sort_key fst ps)"

text \<open>
  \<open>mixImages\<close>, up to the encoding: the canvas after \<open>await Promise.all(promises)\<close>,
  or the error the function rejects with. The target size is in whole pixels, the grid
  dimensions are counts, the padding is any number.
\<close>

definition mixCanvas ::
  "platform \<Rightarrow> gridState \<Rightarrow> nat \<Rightarrow> nat \<Rightarrow> nat \<Rightarrow> nat \<Rightarrow> real \<Rightarrow> string \<Rightarrow> error + bitmap" where
  "mixCanvas pf gridImages cols rows finalWidth finalHeight padding backgroundColor =
     (let canvas = createCanvas finalWidth finalHeight in
      if \<not> context2d pf then Inl (JsError ''Could not get canvas context'')
      else
       (let filled = fillRect pf canvas (fillColor pf backgroundColor) 0 0 finalWidth finalHeight;
            totalPaddingX = padding * (real cols + 1);
            totalPaddingY = padding * (real rows + 1);
            contentWidth = real finalWidth - totalPaddingX;
            contentHeight = real finalHeight - totalPaddingY
        in if contentWidth \<le> 0 \<or> contentHeight \<le> 0 then Inr filled
           else
            (let cellWidth = contentWidth / real cols;
                 cellHeight = contentHeight / real rows
             in case rowLoop pf gridImages padding cellWidth cellHeight cols [0..<rows] of
                  Inl e \<Rightarrow> Inl e
                | Inr ps \<Rightarrow> Inr (foldl (place pf) filled (drawOrder ps)))))"

definition mixImages ::
  "platform \<Rightarrow> gridState \<Rightarrow> nat \<Rightarrow> nat \<Rightarrow> nat \<Rightarrow> nat \<Rightarrow> real \<Rightarrow> string \<Rightarrow> error + string" where
  "mixImages pf gridImages cols rows finalWidth finalHeight padding backgroundColor =
     (case mixCanvas pf gridImages cols rows finalWidth finalHeight padding backgroundColor of
        Inl e \<Rightarrow> Inl e
      | Inr canvas \<Rightarrow> Inr (toDataURL pf canvas))"

text \<open>The rectangle of cell \<open>(r, c)\<close> as the claims give it, with
  \<open>cellWidth = (finalWidth - p (cols + 1)) / cols\<close> and
  \<open>cellHeight = (finalHeight - p (rows + 1)) / rows\<close>.\<close>

definition cellRect ::
  "nat \<Rightarrow> nat \<Rightarrow> nat \<Rightarrow> nat \<Rightarrow> real \<Rightarrow> nat \<Rightarrow> nat \<Rightarrow> bitmap \<Rightarrow> placement" where
  "cellRect cols rows finalWidth finalHeight p r c img =
     (let cellWidth = (real finalWidth - p * (real cols + 1)) / real cols;
          cellHeight = (real finalHeight - p * (real rows + 1)) / real rows
      in \<lparr>p_img = img,
          p_dx = p + real c * (cellWidth + p),
          p_dy = p + real r * (cellHeight + p),
          p_dw = cellWidth, p_dh = cellHeight\<rparr>)"

text \<open>No recorded draw touches the canvas pixel \<open>(X, Y)\<close>.\<close>

definition untouched :: "placement list \<Rightarrow> nat \<Rightarrow> nat \<Rightarrow> bool" where
  "untouched ps X Y = list_all (\<lambda>p. \<not> touches (p_dx p) (p_dy p) (p_dw p) (p_dh p) X Y) ps"

text \<open>For the proofs: what the inner loop body records at \<open>(r, c)\<close> when row \<open>r\<close>
  exists.\<close>

definition cellDraws ::
  "platform \<Rightarrow> gridState \<Rightarrow> real \<Rightarrow> real \<Rightarrow> real \<Rightarrow> nat \<Rightarrow> nat \<Rightarrow> placement list" where
  "cellDraws pf gridImages padding cellWidth cellHeight r c =
     (if c < length (gridImages ! r)
      then (case (gridImages ! r) ! c of
              None \<Rightarrow> []
            | Some src \<Rightarrow>
                if src = [] then []
                else (case decodeImage pf src of
                        None \<Rightarrow> []
                      | Some img \<Rightarrow>
                          [\<lparr>p_img = img,
                            p_dx = padding + real c * (cellWidth + padding),
                            p_dy = padding + real r * (cellHeight + padding),
                            p_dw = cellWidth, p_dh = cellHeight\<rparr>]))
      else [])"

section \<open>Manual crop box: move and resize handles\<close>

text \<open>
  The crop editor keeps its crop box \<open>{x, y, width, height}\<close> in image coordinates.
  JavaScript numbers are modelled as reals (exact arithmetic; the non-finite values
  \<open>Infinity\<close> and \<open>NaN\<close> have no counterpart, so a displayed image of zero size,
  where the source divides by zero, is outside the model).
\<close>

record cropBox =
  box_x :: real
  box_y :: real
  box_width :: real
  box_height :: real

text \<open>\<open>interactionRef.current\<close>: the handle that was grabbed (\<open>'move'\<close>, \<open>'tl'\<close>,
  \<open>'tr'\<close>, \<open>'bl'\<close>, \<open>'br'\<close>), where the pointer was, and the box at that moment.\<close>

record interaction =
  itype :: string
  startX :: real
  startY :: real
  startBox :: cropBox

text \<open>\<open>imageRef.current.getBoundingClientRect()\<close>: only its size is read.\<close>

record domRect =
  rect_width :: real
  rect_height :: real

record imageSize =
  size_width :: nat
  size_height :: nat

text \<open>\<open>type.includes('l')\<close> with a one-character argument.\<close>

definition str_includes :: "string \<Rightarrow> char \<Rightarrow> bool" where
  "str_includes s ch = (ch \<in> set s)"

text \<open>The block under \<open>// Clamp values\<close> of \<open>handleInteractionMove\<close>.\<close>

definition clampValues :: "imageSize \<Rightarrow> cropBox \<Rightarrow> cropBox" where
  "clampValues imgSize newBox0 =
     (let newBox1 = (if box_width newBox0 < 0
                     then newBox0\<lparr>box_x := box_x newBox0 + box_width newBox0,
                                  box_width := \<bar>box_width newBox0\<bar>\<rparr>
                     else newBox0);
          newBox2 = (if box_height newBox1 < 0
                     then newBox1\<lparr>box_y := box_y newBox1 + box_height newBox1,
                                  box_height := \<bar>box_height newBox1\<bar>\<rparr>
                     else newBox1);
          newBox3 = newBox2\<lparr>box_x :=
                      max 0 (min (box_x newBox2) (real (size_width imgSize) - box_width newBox2))\<rparr>;
          newBox4 = newBox3\<lparr>box_y :=
                      max 0 (min (box_y newBox3) (real (size_height imgSize) - box_height newBox3))\<rparr>;
          newBox5 = newBox4\<lparr>box_width :=
                      min (box_width newBox4) (real (size_width imgSize) - box_x newBox4)\<rparr>;
          newBox6 = newBox5\<lparr>box_height :=
                      min (box_height newBox5) (real (size_height imgSize) - box_y newBox5)\<rparr>
      in newBox6)"

text \<open>The handle arithmetic before the clamp: \<open>newBox = { ...startBox }\<close>, then the
  branch on the handle.\<close>

definition applyHandle :: "string \<Rightarrow> cropBox \<Rightarrow> real \<Rightarrow> real \<Rightarrow> cropBox" where
  "applyHandle ty sb deltaX deltaY =
     (let newBox = sb in
      if ty = ''move''
      then newBox\<lparr>box_x := box_x sb + deltaX, box_y := box_y sb + deltaY\<rparr>
      else
        (let nb1 = (if str_includes ty CHR ''l''
                    then newBox\<lparr>box_x := box_x sb + deltaX, box_width := box_width sb - deltaX\<rparr>
                    else newBox);
             nb2 = (if str_includes ty CHR ''r''
                    then nb1\<lparr>box_width := box_width sb + deltaX\<rparr> else nb1);
             nb3 = (if str_includes ty CHR ''t''
                    then nb2\<lparr>box_y := box_y sb + deltaY, box_height := box_height sb - deltaY\<rparr>
                    else nb2);
             nb4 = (if str_includes ty CHR ''b''
                    then nb3\<lparr>box_height := box_height sb + deltaY\<rparr> else nb3)
         in nb4))"

text \<open>
  \<open>handleInteractionMove\<close>. The arguments are what the handler reads:
  \<open>interactionRef.current\<close>, whether \<open>containerRef.current\<close> is set, the bounding
  rectangle of \<open>imageRef.current\<close> (\<open>None\<close> when the ref is null), the \<open>imageSize\<close>
  state and the pointer position \<open>getCoords(e)\<close>. The result is the box handed to
  \<open>setCropBox\<close>, or \<open>None\<close> when the handler returns early and leaves the state alone.
\<close>

definition handleInteractionMove ::
  "interaction option \<Rightarrow> bool \<Rightarrow> domRect option \<Rightarrow> imageSize \<Rightarrow> real \<times> real \<Rightarrow> cropBox option" where
  "handleInteractionMove interactionRef containerRef imageRef imgSize e =
     (case interactionRef of
        None \<Rightarrow> None
      | Some ia \<Rightarrow>
          if \<not> containerRef then None
          else (case imageRef of
                  None \<Rightarrow> None
                | Some rect \<Rightarrow>
                    (let currentX = fst e; currentY = snd e;
                         dx = currentX - startX ia;
                         dy = currentY - startY ia;
                         scaleX = real (size_width imgSize) / rect_width rect;
                         scaleY = real (size_height imgSize) / rect_height rect;
                         deltaX = dx * scaleX;
                         deltaY = dy * scaleY;
                         newBox = applyHandle (itype ia) (startBox ia) deltaX deltaY
                     in Some (clampValues imgSize newBox))))"

text \<open>A crop box lies within an image of the given size.\<close>

definition withinImage :: "imageSize \<Rightarrow> cropBox \<Rightarrow> bool" where
  "withinImage imgSize b =
     (0 \<le> box_x b \<and> 0 \<le> box_y b \<and> 0 \<le> box_width b \<and> 0 \<le> box_height b \<and>
      box_x b + box_width b \<le> real (size_width imgSize) \<and>
      box_y b + box_height b \<le> real (size_height imgSize))"

section \<open>The generative-AI service: enhancePrompt and generateImage\<close>











section \<open>The generative-AI service: generateVideoFromImage\<close>








section \<open>Example inputs\<close>

text \<open>A 3 x 2 image, white except for a red pixel at \<open>(1, 0)\<close> and a blue pixel at
  \<open>(2, 1)\<close>, all opaque; and a 2 x 2 image that is white throughout.\<close>

definition white :: rgba where
  "white = \<lparr>red = 255, green = 255, blue = 255, alpha = 255\<rparr>"

definition demoImage :: bitmap where
  "demoImage = \<lparr>width = 3, height = 2, pixel = (\<lambda>x y.
      if x = 1 \<and> y = 0 then \<lparr>red = 255, green = 0, blue = 0, alpha = 255\<rparr>
      else if x = 2 \<and> y = 1 then \<lparr>red = 0, green = 0, blue = 255, alpha = 255\<rparr>
      else white)\<rparr>"

definition whiteImage :: bitmap where
  "whiteImage = \<lparr>width = 2, height = 2, pixel = (\<lambda>x y. white)\<rparr>"

text \<open>A browser that decodes the two URLs \<open>demo\<close> and \<open>white\<close>, fails on every other
  one, grants contexts, composites by replacing the pixel, resamples by nearest
  neighbour, and completes all loads at once.\<close>

definition demoPlatform :: platform where
  "demoPlatform = \<lparr>
      decodeImage = (\<lambda>s. if s = ''demo'' then Some demoImage
                          else if s = ''white'' then Some whiteImage else None),
      context2d = True,
      toDataURL = (\<lambda>cv. ''canvas''),
      fillColor = (\<lambda>s. \<lparr>red = 17, green = 24, blue = 39, alpha = 255\<rparr>),
      blend = (\<lambda>s d. s),
      resample = (\<lambda>img dx dy dw dh X Y old.
         pixel img (nat \<lfloor>(real X + 1 / 2 - dx) * real (width img) / dw\<rfloor>)
                   (nat \<lfloor>(real Y + 1 / 2 - dy) * real (height img) / dh\<rfloor>)),
      loadTime = (\<lambda>r c. 0)\<rparr>"

text \<open>The same browser, which also decodes the URL \<open>canvas\<close> to the horizontally
  flipped example image.\<close>

definition flipPlatform :: platform where
  "flipPlatform = demoPlatform\<lparr>decodeImage :=
      (\<lambda>s. if s = ''demo'' then Some demoImage
            else if s = ''canvas'' then Some (flipCanvas demoPlatform demoImage Horizontal)
            else None)\<rparr>"

text \<open>A 2 x 2 grid: the example image, an empty cell, a URL that does not load, and
  the white image.\<close>

definition demoGrid :: gridState where
  "demoGrid = [[Some ''demo'', None], [Some ''missing'', Some ''white'']]"







section \<open>Facts about the example inputs\<close>

lemma white_loads: "decodeImage demoPlatform ''white'' = Some whiteImage"
  by (simp add: demoPlatform_def)

lemma demo_context: "context2d demoPlatform"
  by (simp add: demoPlatform_def)

lemma white_size: "width whiteImage = 2" "height whiteImage = 2"
  by (simp_all add: whiteImage_def)

lemma demo_loads: "decodeImage demoPlatform ''demo'' = Some demoImage"
  by (simp add: demoPlatform_def)

lemma demo_size: "width demoImage = 3" "height demoImage = 2"
  by (simp_all add: demoImage_def)

section \<open>The crop box stays inside the image\<close>

text \<open>One axis of the clamp: flip a negative extent, pull the origin into
  \<open>[0, W - w]\<close>, then cut the extent at the far edge.\<close>

lemma clamp_axis:
  fixes W x w :: real
  assumes "0 \<le> W"
  defines "x1 \<equiv> (if w < 0 then x + w else x)"
    and "w1 \<equiv> (if w < 0 then \<bar>w\<bar> else w)"
  defines "x2 \<equiv> max 0 (min x1 (W - w1))"
  shows "0 \<le> x2" and "0 \<le> min w1 (W - x2)" and "x2 + min w1 (W - x2) \<le> W"
proof -
  have w1: "0 \<le> w1" by (simp add: w1_def)
  show "0 \<le> x2" by (simp add: x2_def)
  have "x2 \<le> W" using w1 assms(1) by (simp add: x2_def min_def max_def)
  then show "0 \<le> min w1 (W - x2)" using w1 by simp
  show "x2 + min w1 (W - x2) \<le> W" by (simp add: min_def)
qed

lemma clampValues_x:
  "box_x (clampValues imgSize b) =
     max 0 (min (if box_width b < 0 then box_x b + box_width b else box_x b)
                (real (size_width imgSize) - (if box_width b < 0 then \<bar>box_width b\<bar> else box_width b)))"
  by (cases "box_width b < 0"; cases "box_height b < 0") (simp_all add: clampValues_def)

lemma clampValues_y:
  "box_y (clampValues imgSize b) =
     max 0 (min (if box_height b < 0 then box_y b + box_height b else box_y b)
                (real (size_height imgSize) - (if box_height b < 0 then \<bar>box_height b\<bar> else box_height b)))"
  by (cases "box_width b < 0"; cases "box_height b < 0") (simp_all add: clampValues_def)

lemma clampValues_width:
  "box_width (clampValues imgSize b) =
     min (if box_width b < 0 then \<bar>box_width b\<bar> else box_width b)
         (real (size_width imgSize) - box_x (clampValues imgSize b))"
  by (cases "box_width b < 0"; cases "box_height b < 0") (simp_all add: clampValues_def)

lemma clampValues_height:
  "box_height (clampValues imgSize b) =
     min (if box_height b < 0 then \<bar>box_height b\<bar> else box_height b)
         (real (size_height imgSize) - box_y (clampValues imgSize b))"
  by (cases "box_width b < 0"; cases "box_height b < 0") (simp_all add: clampValues_def)

lemma clampValues_within: "withinImage imgSize (clampValues imgSize b)"
proof -
  have W: "(0::real) \<le> real (size_width imgSize)" and H: "(0::real) \<le> real (size_height imgSize)"
    by simp_all
  note X = clamp_axis [OF W, of "box_width b" "box_x b"]
  note Y = clamp_axis [OF H, of "box_height b" "box_y b"]
  have "0 \<le> box_x (clampValues imgSize b)"
    using X(1) by (simp only: clampValues_x)
  moreover have "0 \<le> box_width (clampValues imgSize b)"
    using X(2) by (simp only: clampValues_width clampValues_x)
  moreover have "box_x (clampValues imgSize b) + box_width (clampValues imgSize b)
                   \<le> real (size_width imgSize)"
    using X(3) by (simp only: clampValues_width clampValues_x)
  moreover have "0 \<le> box_y (clampValues imgSize b)"
    using Y(1) by (simp only: clampValues_y)
  moreover have "0 \<le> box_height (clampValues imgSize b)"
    using Y(2) by (simp only: clampValues_height clampValues_y)
  moreover have "box_y (clampValues imgSize b) + box_height (clampValues imgSize b)
                   \<le> real (size_height imgSize)"
    using Y(3) by (simp only: clampValues_height clampValues_y)
  ultimately show ?thesis by (simp add: withinImage_def)
qed

text \<open>
  C4. During a move or resize interaction with all refs present and the image displayed
  at a positive size, for every starting crop box and every pointer position the handler
  updates the crop box, and the updated box satisfies \<open>0 \<le> x\<close>, \<open>0 \<le> y\<close>,
  \<open>width \<ge> 0\<close>, \<open>height \<ge> 0\<close>, \<open>x + width \<le>\<close> image width and
  \<open>y + height \<le>\<close> image height. (The starting box need not even lie within the image.)
\<close>

theorem handleInteractionMove_within:
  assumes "0 < rect_width rect" and "0 < rect_height rect"
  shows "\<exists>nb. handleInteractionMove (Some ia) True (Some rect) imgSize e = Some nb \<and>
              0 \<le> box_x nb \<and> 0 \<le> box_y nb \<and> 0 \<le> box_width nb \<and> 0 \<le> box_height nb \<and>
              box_x nb + box_width nb \<le> real (size_width imgSize) \<and>
              box_y nb + box_height nb \<le> real (size_height imgSize)"
proof -
  let ?nb = "clampValues imgSize
               (applyHandle (itype ia) (startBox ia)
                  ((fst e - startX ia) * (real (size_width imgSize) / rect_width rect))
                  ((snd e - startY ia) * (real (size_height imgSize) / rect_height rect)))"
  have "handleInteractionMove (Some ia) True (Some rect) imgSize e = Some ?nb"
    by (simp add: handleInteractionMove_def Let_def)
  moreover have "withinImage imgSize ?nb"
    by (rule clampValues_within)
  ultimately show ?thesis
    unfolding withinImage_def by blast
qed

text \<open>A concrete drag: the top-left handle of the box \<open>(20, 20, 50, 40)\<close> in a
  100 x 80 image shown at full size is dragged from \<open>(20, 20)\<close> to \<open>(90, 200)\<close>,
  past the opposite corner. The box flips and is cut to \<open>(70, 0, 20, 80)\<close>.\<close>

lemma drag_applyHandle:
  "applyHandle ''tl'' \<lparr>box_x = 20, box_y = 20, box_width = 50, box_height = 40\<rparr> 70 180
     = \<lparr>box_x = 90, box_y = 200, box_width = -20, box_height = -140\<rparr>"
  by (simp add: applyHandle_def str_includes_def)

lemma drag_clampValues:
  "clampValues \<lparr>size_width = 100, size_height = 80\<rparr>
       \<lparr>box_x = 90, box_y = 200, box_width = -20, box_height = -140\<rparr>
     = \<lparr>box_x = 70, box_y = 0, box_width = 20, box_height = 80\<rparr>"
  by (simp add: clampValues_def)

lemma drag_example:
  "handleInteractionMove
      (Some \<lparr>itype = ''tl'', startX = 20, startY = 20,
             startBox = \<lparr>box_x = 20, box_y = 20, box_width = 50, box_height = 40\<rparr>\<rparr>)
      True (Some \<lparr>rect_width = 100, rect_height = 80\<rparr>)
      \<lparr>size_width = 100, size_height = 80\<rparr> (90, 200)
     = Some \<lparr>box_x = 70, box_y = 0, box_width = 20, box_height = 80\<rparr>"
proof -
  have "handleInteractionMove
      (Some \<lparr>itype = ''tl'', startX = 20, startY = 20,
             startBox = \<lparr>box_x = 20, box_y = 20, box_width = 50, box_height = 40\<rparr>\<rparr>)
      True (Some \<lparr>rect_width = 100, rect_height = 80\<rparr>)
      \<lparr>size_width = 100, size_height = 80\<rparr> (90, 200)
     = Some (clampValues \<lparr>size_width = 100, size_height = 80\<rparr>
          (applyHandle ''tl'' \<lparr>box_x = 20, box_y = 20, box_width = 50, box_height = 40\<rparr> 70 180))"
    by (simp add: handleInteractionMove_def Let_def)
  then show ?thesis by (simp only: drag_applyHandle drag_clampValues)
qed

theorem handleInteractionMove_within_witness:
  "0 < rect_width \<lparr>rect_width = 100, rect_height = 80\<rparr> \<and>
   0 < rect_height \<lparr>rect_width = 100, rect_height = 80\<rparr> \<and>
   handleInteractionMove
      (Some \<lparr>itype = ''tl'', startX = 20, startY = 20,
             startBox = \<lparr>box_x = 20, box_y = 20, box_width = 50, box_height = 40\<rparr>\<rparr>)
      True (Some \<lparr>rect_width = 100, rect_height = 80\<rparr>)
      \<lparr>size_width = 100, size_height = 80\<rparr> (90, 200)
     = Some \<lparr>box_x = 70, box_y = 0, box_width = 20, box_height = 80\<rparr> \<and>
   (\<exists>nb. handleInteractionMove
      (Some \<lparr>itype = ''tl'', startX = 20, startY = 20,
             startBox = \<lparr>box_x = 20, box_y = 20, box_width = 50, box_height = 40\<rparr>\<rparr>)
      True (Some \<lparr>rect_width = 100, rect_height = 80\<rparr>)
      \<lparr>size_width = 100, size_height = 80\<rparr> (90, 200) = Some nb \<and>
      0 \<le> box_x nb \<and> 0 \<le> box_y nb \<and> 0 \<le> box_width nb \<and> 0 \<le> box_height nb \<and>
      box_x nb + box_width nb \<le> real (size_width \<lparr>size_width = 100, size_height = 80\<rparr>) \<and>
      box_y nb + box_height nb \<le> real (size_height \<lparr>size_width = 100, size_height = 80\<rparr>))"
proof -
  have pos: "0 < rect_width \<lparr>rect_width = 100, rect_height = 80\<rparr>"
            "0 < rect_height \<lparr>rect_width = 100, rect_height = 80\<rparr>"
    by simp_all
  note inst = handleInteractionMove_within [OF pos,
      of "\<lparr>itype = ''tl'', startX = 20, startY = 20,
             startBox = \<lparr>box_x = 20, box_y = 20, box_width = 50, box_height = 40\<rparr>\<rparr>"
         "\<lparr>size_width = 100, size_height = 80\<rparr>" "(90, 200)"]
  show ?thesis
    by (intro conjI pos drag_example inst)
qed

section \<open>autoCrop: the scan computes the tight bounding box\<close>

lemma copyCanvas_width: "width (copyCanvas pf img) = width img"
  by (simp add: copyCanvas_def ctx_drawImage_def getContext_def createCanvas_def Let_def)

lemma copyCanvas_height: "height (copyCanvas pf img) = height img"
  by (simp add: copyCanvas_def ctx_drawImage_def getContext_def createCanvas_def Let_def)

lemma copyCanvas_pixel:
  "x < width img \<Longrightarrow> y < height img \<Longrightarrow> pixel (copyCanvas pf img) x y = pixel img x y"
  by (simp add: copyCanvas_def ctx_drawImage_def getContext_def createCanvas_def Let_def
      sourceIndex_def over_def transparent_def)

lemma getImageData_at:
  assumes "k < 4"
  shows "getImageData cv (n * 4 + k) =
     (let p = pixel cv (n mod width cv) (n div width cv)
      in if k = 0 then red p else if k = 1 then green p
         else if k = 2 then blue p else alpha p)"
proof -
  have d: "(n * 4 + k) div 4 = n" and m: "(n * 4 + k) mod 4 = k"
    using assms by simp_all
  show ?thesis
    by (simp only: getImageData_def d m)
qed

lemma row_major_index:
  assumes "x < (w::nat)"
  shows "(y * w + x) mod w = x" and "(y * w + x) div w = y"
  using assms by simp_all

lemma getImageData_bytes:
  assumes "x < width cv"
  shows "getImageData cv ((y * width cv + x) * 4) = red (pixel cv x y)"
    and "getImageData cv ((y * width cv + x) * 4 + 1) = green (pixel cv x y)"
    and "getImageData cv ((y * width cv + x) * 4 + 2) = blue (pixel cv x y)"
    and "getImageData cv ((y * width cv + x) * 4 + 3) = alpha (pixel cv x y)"
proof -
  note rm = row_major_index [OF assms, of y]
  show "getImageData cv ((y * width cv + x) * 4) = red (pixel cv x y)"
    using getImageData_at [of 0 cv "y * width cv + x"] assms by (simp add: rm)
  show "getImageData cv ((y * width cv + x) * 4 + 1) = green (pixel cv x y)"
    using getImageData_at [of 1 cv "y * width cv + x"] assms by (simp add: rm)
  show "getImageData cv ((y * width cv + x) * 4 + 2) = blue (pixel cv x y)"
    using getImageData_at [of 2 cv "y * width cv + x"] assms by (simp add: rm)
  show "getImageData cv ((y * width cv + x) * 4 + 3) = alpha (pixel cv x y)"
    using getImageData_at [of 3 cv "y * width cv + x"] assms by (simp add: rm)
qed

lemma visitPixel_widen:
  assumes "x < width cv"
  shows "visitPixel (getImageData cv) (width cv) cc t y x bb =
     (if isContent cc t (red (pixel cv x y)) (green (pixel cv x y)) (blue (pixel cv x y))
           (alpha (pixel cv x y))
      then widen x y bb else bb)"
proof -
  have w: "(let bb1 = (if int x < minX bb then bb\<lparr>minX := int x\<rparr> else bb);
                   bb2 = (if int x > maxX bb1 then bb1\<lparr>maxX := int x\<rparr> else bb1);
                   bb3 = (if int y < minY bb2 then bb2\<lparr>minY := int y\<rparr> else bb2);
                   bb4 = (if int y > maxY bb3 then bb3\<lparr>maxY := int y\<rparr> else bb3)
               in bb4) = widen x y bb"
    by (simp add: widen_def Let_def min_def max_def)
  show ?thesis
    unfolding visitPixel_def Let_def getImageData_bytes [OF assms] w [unfolded Let_def] ..
qed

lemma set_scanOrder: "set (scanOrder w h) = {(x, y). x < w \<and> y < h}"
  by (auto simp: scanOrder_def)

lemma fold_over_concat: "fold f (concat xss) s = fold (fold f) xss s"
  by (induction xss arbitrary: s) simp_all

lemma scanRow_fold:
  "scanRow (getImageData cv) (width cv) cc t y bb =
     fold (scanStep (pixelContent cv cc t)) (map (\<lambda>x. (x, y)) [0..<width cv]) bb"
proof -
  have "fold (visitPixel (getImageData cv) (width cv) cc t y) [0..<width cv] bb =
        fold (\<lambda>x. scanStep (pixelContent cv cc t) (x, y)) [0..<width cv] bb"
    by (rule fold_cong) (auto simp: fun_eq_iff visitPixel_widen scanStep_def pixelContent_def)
  then show ?thesis
    by (simp add: scanRow_def fold_map comp_def)
qed

lemma scanImage_fold:
  "scanImage (getImageData cv) (width cv) h cc t =
     fold (scanStep (pixelContent cv cc t)) (scanOrder (width cv) h)
       \<lparr>minX = int (width cv), minY = int h, maxX = - 1, maxY = - 1\<rparr>"
proof -
  have "scanRow (getImageData cv) (width cv) cc t =
        (\<lambda>y. fold (scanStep (pixelContent cv cc t)) (map (\<lambda>x. (x, y)) [0..<width cv]))"
    by (rule ext, rule ext) (rule scanRow_fold)
  then show ?thesis
    by (simp add: scanImage_def scanOrder_def fold_over_concat fold_map comp_def)
qed

lemma fold_scanStep_none:
  "\<forall>p \<in> set ps. \<not> C (fst p) (snd p) \<Longrightarrow> fold (scanStep C) ps bb = bb"
  by (induction ps arbitrary: bb) (simp_all add: scanStep_def)




lemma scanImage_contentAt:
  "scanImage (getImageData (copyCanvas pf img)) (width img) (height img) cc t =
     fold (scanStep (contentAt img cc t)) (scanOrder (width img) (height img))
       \<lparr>minX = int (width img), minY = int (height img), maxX = - 1, maxY = - 1\<rparr>"
proof -
  have "fold (scanStep (pixelContent (copyCanvas pf img) cc t)) (scanOrder (width img) (height img)) bb =
        fold (scanStep (contentAt img cc t)) (scanOrder (width img) (height img)) bb" for bb
    by (rule fold_cong)
       (auto simp: set_scanOrder scanStep_def pixelContent_def contentAt_def copyCanvas_pixel fun_eq_iff)
  with scanImage_fold [of "copyCanvas pf img" "height img" cc t] show ?thesis
    by (simp add: copyCanvas_width)
qed

lemma autoCrop_unfold:
  assumes "decodeImage pf imageDataUrl = Some img" and "context2d pf"
    and "0 < width img" and "0 < height img"
  shows "autoCrop pf imageDataUrl cropColorHex tolerance =
     (let bb = scanImage (getImageData (copyCanvas pf img)) (width img) (height img)
                 (cropColorOf cropColorHex) (toleranceOf tolerance)
      in if maxX bb = - 1 then Inr imageDataUrl
         else Inr (toDataURL pf
                (drawImageRegion pf
                   (createCanvas (nat (maxX bb - minX bb + 1)) (nat (maxY bb - minY bb + 1)))
                   (copyCanvas pf img) (minX bb) (minY bb)
                   (nat (maxX bb - minX bb + 1)) (nat (maxY bb - minY bb + 1)))))"
  using assms
  by (simp add: autoCrop_def loadImage_def Let_def copyCanvas_def [symmetric]
        copyCanvas_width copyCanvas_height)

lemma autoCrop_unchanged:
  assumes "decodeImage pf imageDataUrl = Some img" and "context2d pf"
    and "0 < width img" and "0 < height img"
    and none: "\<And>x y. \<not> contentAt img (cropColorOf cropColorHex) (toleranceOf tolerance) x y"
  shows "autoCrop pf imageDataUrl cropColorHex tolerance = Inr imageDataUrl"
proof -
  have "fold (scanStep (contentAt img (cropColorOf cropColorHex) (toleranceOf tolerance)))
          (scanOrder (width img) (height img))
          \<lparr>minX = int (width img), minY = int (height img), maxX = - 1, maxY = - 1\<rparr>
        = \<lparr>minX = int (width img), minY = int (height img), maxX = - 1, maxY = - 1\<rparr>"
    by (rule fold_scanStep_none) (simp add: none)
  then show ?thesis
    by (simp add: autoCrop_unfold [OF assms(1-4)] scanImage_contentAt)
qed

lemma contentAt_iff:
  "contentAt img cc t x y \<longleftrightarrow>
     x < width img \<and> y < height img \<and> alpha (pixel img x y) > 0 \<and>
     (case cc of
        None \<Rightarrow> True
      | Some c \<Rightarrow> sqrt ((real (red (pixel img x y)) - real (rgb_r c))\<^sup>2
                       + (real (green (pixel img x y)) - real (rgb_g c))\<^sup>2
                       + (real (blue (pixel img x y)) - real (rgb_b c))\<^sup>2) > t)"
  by (auto simp: contentAt_def isContent_def Let_def split: option.splits)


section \<open>autoCrop: the claims\<close>

lemma hex_white: "hexToRgb ''#ffffff'' = Some \<lparr>rgb_r = 255, rgb_g = 255, rgb_b = 255\<rparr>"
  by (simp add: hexToRgb_def hexPair_def hexDigit_def)


lemma hex_short: "hexToRgb ''#fff'' = None"
  by (simp add: hexToRgb_def hexPair_def hexDigit_def)

subsection \<open>What hexToRgb reads\<close>













text \<open>
  C10. If no pixel of the (non-empty) input image is content, that is, every pixel is
  fully transparent or, with a crop colour in force, within the tolerance distance of
  that colour, then \<open>autoCrop\<close> returns its input data URL itself.
\<close>

theorem autoCrop_returns_input_without_content:
  assumes "decodeImage pf imageDataUrl = Some img" and "context2d pf"
    and "0 < width img" and "0 < height img"
    and "\<forall>x y. x < width img \<and> y < height img \<longrightarrow>
           alpha (pixel img x y) = 0 \<or>
           (\<exists>c. cropColorOf cropColorHex = Some c \<and>
                sqrt ((real (red (pixel img x y)) - real (rgb_r c))\<^sup>2
                      + (real (green (pixel img x y)) - real (rgb_g c))\<^sup>2
                      + (real (blue (pixel img x y)) - real (rgb_b c))\<^sup>2)
                  \<le> toleranceOf tolerance)"
  shows "autoCrop pf imageDataUrl cropColorHex tolerance = Inr imageDataUrl"
proof (rule autoCrop_unchanged [OF assms(1-4)])
  fix x y
  show "\<not> contentAt img (cropColorOf cropColorHex) (toleranceOf tolerance) x y"
  proof
    assume c: "contentAt img (cropColorOf cropColorHex) (toleranceOf tolerance) x y"
    then have r: "x < width img \<and> y < height img" and a: "alpha (pixel img x y) > 0"
      by (simp_all add: contentAt_iff)
    with assms(5) obtain c' where c': "cropColorOf cropColorHex = Some c'"
      "sqrt ((real (red (pixel img x y)) - real (rgb_r c'))\<^sup>2
             + (real (green (pixel img x y)) - real (rgb_g c'))\<^sup>2
             + (real (blue (pixel img x y)) - real (rgb_b c'))\<^sup>2) \<le> toleranceOf tolerance"
      by fastforce
    with c show False
      by (simp add: contentAt_iff)
  qed
qed

theorem autoCrop_returns_input_without_content_witness:
  "decodeImage demoPlatform ''white'' = Some whiteImage \<and> context2d demoPlatform \<and>
   0 < width whiteImage \<and> 0 < height whiteImage \<and>
   autoCrop demoPlatform ''white'' (Some ''#ffffff'') None = Inr ''white''"
proof -
  have h1: "decodeImage demoPlatform ''white'' = Some whiteImage"
    by (simp add: demoPlatform_def)
  have h2: "context2d demoPlatform"
    by (simp add: demoPlatform_def)
  have h3: "0 < width whiteImage" and h4: "0 < height whiteImage"
    by (simp_all add: whiteImage_def)
  have h5: "\<forall>x y. x < width whiteImage \<and> y < height whiteImage \<longrightarrow>
           alpha (pixel whiteImage x y) = 0 \<or>
           (\<exists>c. cropColorOf (Some ''#ffffff'') = Some c \<and>
                sqrt ((real (red (pixel whiteImage x y)) - real (rgb_r c))\<^sup>2
                      + (real (green (pixel whiteImage x y)) - real (rgb_g c))\<^sup>2
                      + (real (blue (pixel whiteImage x y)) - real (rgb_b c))\<^sup>2)
                  \<le> toleranceOf None)"
    by (simp add: cropColorOf_def hex_white whiteImage_def white_def toleranceOf_def)
  note inst = autoCrop_returns_input_without_content [OF h1 h2 h3 h4 h5]
  show ?thesis
    by (rule conjI [OF h1 conjI [OF h2 conjI [OF h3 conjI [OF h4 inst]]]])
qed

section \<open>flipImage: flipping twice restores the image\<close>

lemma flipCanvas_width: "width (flipCanvas pf img d) = width img"
  by (cases d) (simp_all add: flipCanvas_def ctx_drawImage_def ctx_scale_def ctx_translate_def
      getContext_def createCanvas_def Let_def)

lemma flipCanvas_height: "height (flipCanvas pf img d) = height img"
  by (cases d) (simp_all add: flipCanvas_def ctx_drawImage_def ctx_scale_def ctx_translate_def
      getContext_def createCanvas_def Let_def)

lemma flipCanvas_pixel_horizontal:
  "x < width img \<Longrightarrow> y < height img \<Longrightarrow>
   pixel (flipCanvas pf img Horizontal) x y = pixel img (width img - 1 - x) y"
  by (simp add: flipCanvas_def ctx_drawImage_def ctx_scale_def ctx_translate_def
      getContext_def createCanvas_def Let_def sourceIndex_def over_def transparent_def nat_diff_distrib)

lemma flipCanvas_pixel_vertical:
  "x < width img \<Longrightarrow> y < height img \<Longrightarrow>
   pixel (flipCanvas pf img Vertical) x y = pixel img x (height img - 1 - y)"
  by (simp add: flipCanvas_def ctx_drawImage_def ctx_scale_def ctx_translate_def
      getContext_def createCanvas_def Let_def sourceIndex_def over_def transparent_def nat_diff_distrib)

lemma flipCanvas_twice:
  assumes "x < width img" and "y < height img"
  shows "pixel (flipCanvas pf (flipCanvas pf img d) d) x y = pixel img x y"
proof (cases d)
  case Horizontal
  have "width img - 1 - x < width img" using assms by simp
  then show ?thesis
    using assms by (simp add: Horizontal flipCanvas_pixel_horizontal flipCanvas_width flipCanvas_height)
next
  case Vertical
  have "height img - 1 - y < height img" using assms by simp
  then show ?thesis
    using assms by (simp add: Vertical flipCanvas_pixel_vertical flipCanvas_width flipCanvas_height)
qed

lemma flipCanvas_blend:
  assumes "blend pf = blend pf'"
  shows "flipCanvas pf img d = flipCanvas pf' img d"
proof -
  have eq: "over pf = over pf'"
    using assms by (simp add: fun_eq_iff over_def)
  show ?thesis
    unfolding flipCanvas_def ctx_drawImage_def eq ..
qed

text \<open>
  C5. Applying \<open>flipImage\<close> twice with the same direction to an image that loads,
  where the browser decodes the intermediate PNG to the canvas it encodes, succeeds both
  times and yields the encoding of a canvas with the width, the height and every pixel
  of the original.
\<close>

theorem flipImage_involution:
  assumes "decodeImage pf imageDataUrl = Some img" and "context2d pf"
    and "decodeImage pf (toDataURL pf (flipCanvas pf img d)) = Some (flipCanvas pf img d)"
  shows "\<exists>once twice res.
           flipImage pf imageDataUrl d = Inr once \<and>
           flipImage pf once d = Inr twice \<and>
           twice = toDataURL pf res \<and>
           width res = width img \<and> height res = height img \<and>
           (\<forall>x y. x < width img \<and> y < height img \<longrightarrow> pixel res x y = pixel img x y)"
proof -
  let ?once = "toDataURL pf (flipCanvas pf img d)"
  let ?res = "flipCanvas pf (flipCanvas pf img d) d"
  have 1: "flipImage pf imageDataUrl d = Inr ?once"
    using assms(1,2) by (simp add: flipImage_def loadImage_def)
  have 2: "flipImage pf ?once d = Inr (toDataURL pf ?res)"
    using assms(2,3) by (simp add: flipImage_def loadImage_def)
  have 3: "width ?res = width img \<and> height ?res = height img"
    by (simp add: flipCanvas_width flipCanvas_height)
  have 4: "\<forall>x y. x < width img \<and> y < height img \<longrightarrow> pixel ?res x y = pixel img x y"
    by (simp add: flipCanvas_twice)
  from 1 2 3 4 show ?thesis by blast
qed

theorem flipImage_involution_witness:
  "decodeImage flipPlatform ''demo'' = Some demoImage \<and> context2d flipPlatform \<and>
   decodeImage flipPlatform (toDataURL flipPlatform (flipCanvas flipPlatform demoImage Horizontal))
     = Some (flipCanvas flipPlatform demoImage Horizontal) \<and>
   pixel (flipCanvas flipPlatform demoImage Horizontal) 2 1 = white \<and>
   pixel (flipCanvas flipPlatform demoImage Horizontal) 0 1
     = \<lparr>red = 0, green = 0, blue = 255, alpha = 255\<rparr> \<and>
   (\<exists>once twice res.
      flipImage flipPlatform ''demo'' Horizontal = Inr once \<and>
      flipImage flipPlatform once Horizontal = Inr twice \<and>
      twice = toDataURL flipPlatform res \<and>
      width res = width demoImage \<and> height res = height demoImage \<and>
      (\<forall>x y. x < width demoImage \<and> y < height demoImage
               \<longrightarrow> pixel res x y = pixel demoImage x y))"
proof -
  have h1: "decodeImage flipPlatform ''demo'' = Some demoImage"
    by (simp add: flipPlatform_def)
  have h2: "context2d flipPlatform"
    by (simp add: flipPlatform_def demoPlatform_def)
  have same: "flipCanvas flipPlatform demoImage Horizontal = flipCanvas demoPlatform demoImage Horizontal"
    by (rule flipCanvas_blend) (simp add: flipPlatform_def)
  have h3: "decodeImage flipPlatform (toDataURL flipPlatform (flipCanvas flipPlatform demoImage Horizontal))
     = Some (flipCanvas flipPlatform demoImage Horizontal)"
    unfolding same by (simp add: flipPlatform_def demoPlatform_def)
  have p1: "pixel (flipCanvas flipPlatform demoImage Horizontal) 2 1 = white"
    by (simp add: flipCanvas_pixel_horizontal demoImage_def)
  have p2: "pixel (flipCanvas flipPlatform demoImage Horizontal) 0 1
     = \<lparr>red = 0, green = 0, blue = 255, alpha = 255\<rparr>"
    by (simp add: flipCanvas_pixel_horizontal demoImage_def)
  note inst = flipImage_involution [OF h1 h2 h3]
  show ?thesis
    by (rule conjI [OF h1 conjI [OF h2 conjI [OF h3 conjI [OF p1 conjI [OF p2 inst]]]]])
qed

section \<open>Rounding to the nearest double\<close>

lemma roundToEven_error: "\<bar>of_int (roundToEven q) - q\<bar> \<le> 1 / 2"
proof -
  have "0 \<le> q - of_int \<lfloor>q\<rfloor>" "q - of_int \<lfloor>q\<rfloor> < 1"
    by linarith+
  then show ?thesis
    by (auto simp: roundToEven_def Let_def)
qed

lemma roundToEven_int: "roundToEven (of_int k) = k"
  by (simp add: roundToEven_def)

text \<open>The relative error of one operation is at most \<open>2^-53\<close>.\<close>

lemma nearestDouble_error: "\<bar>nearestDouble x - x\<bar> \<le> \<bar>x\<bar> / 2 ^ 53"
proof (cases "x = 0")
  case True
  then show ?thesis by (simp add: nearestDouble_def)
next
  case False
  define e where "e = \<lfloor>log 2 \<bar>x\<bar>\<rfloor>"
  define ulp :: real where "ulp = 2 powr (of_int e - 52)"
  have ulp: "0 < ulp" by (simp add: ulp_def)
  have nd: "nearestDouble x = of_int (roundToEven (x / ulp)) * ulp"
    using False by (simp add: nearestDouble_def Let_def e_def ulp_def)
  have "nearestDouble x - x = (of_int (roundToEven (x / ulp)) - x / ulp) * ulp"
    using ulp by (simp add: nd field_simps)
  then have "\<bar>nearestDouble x - x\<bar> = \<bar>of_int (roundToEven (x / ulp)) - x / ulp\<bar> * \<bar>ulp\<bar>"
    by (simp only: abs_mult)
  also have "\<dots> = \<bar>of_int (roundToEven (x / ulp)) - x / ulp\<bar> * ulp"
    using ulp by simp
  also have "\<dots> \<le> 1 / 2 * ulp"
    using roundToEven_error [of "x / ulp"] ulp by (intro mult_right_mono) simp_all
  also have "\<dots> = 2 powr (of_int e) / 2 ^ 53"
  proof -
    have "(2::real) powr (of_int e - 52) = 2 powr (of_int e) / 2 powr 52"
      by (simp add: powr_diff)
    also have "(2::real) powr 52 = 2 ^ 52"
      by (simp add: powr_numeral)
    finally show ?thesis by (simp add: ulp_def)
  qed
  also have "\<dots> \<le> \<bar>x\<bar> / 2 ^ 53"
  proof -
    have "of_int e \<le> log 2 \<bar>x\<bar>"
      by (simp add: e_def)
    then have "(2::real) powr (of_int e) \<le> 2 powr (log 2 \<bar>x\<bar>)"
      by (simp add: powr_le_cancel_iff)
    also have "\<dots> = \<bar>x\<bar>"
      using False by simp
    finally show ?thesis by (simp add: divide_right_mono)
  qed
  finally show ?thesis .
qed

text \<open>Whole numbers below \<open>2^53\<close> are doubles.\<close>

lemma nearestDouble_nat:
  assumes "n < 2 ^ 53"
  shows "nearestDouble (real n) = real n"
proof (cases "n = 0")
  case True
  then show ?thesis by (simp add: nearestDouble_def)
next
  case False
  define e where "e = \<lfloor>log 2 \<bar>real n\<bar>\<rfloor>"
  have n1: "1 \<le> real n" using False by simp
  have "0 \<le> log 2 (real n)"
    using n1 by simp
  then have e0: "0 \<le> e" by (simp add: e_def)
  have "real n < 2 ^ 53"
    using assms by (metis of_nat_less_iff of_nat_numeral of_nat_power)
  then have "log 2 (real n) < log 2 (2 ^ 53)"
    using n1 by simp
  also have "log 2 (2 ^ 53 :: real) = 53"
    by (subst log_nat_power) simp_all
  finally have e52: "e \<le> 52"
    by (simp add: e_def floor_le_iff)
  define k where "k = nat (52 - e)"
  have k: "of_int e - 52 = - real k"
    using e52 by (simp add: k_def)
  have ulp: "(2::real) powr (of_int e - 52) = 1 / 2 ^ k"
    unfolding k by (simp add: powr_minus powr_realpow inverse_eq_divide)
  have q: "real n / (1 / 2 ^ k) = of_int (int n * 2 ^ k)"
    by simp
  have "nearestDouble (real n) =
          of_int (roundToEven (real n / 2 powr (of_int e - 52))) * 2 powr (of_int e - 52)"
    using False by (simp add: nearestDouble_def Let_def e_def)
  also have "\<dots> = of_int (roundToEven (real n / (1 / 2 ^ k))) * (1 / 2 ^ k)"
    by (simp only: ulp)
  also have "\<dots> = real n"
    unfolding q roundToEven_int by simp
  finally show ?thesis .
qed

lemma nearestDouble_bounds:
  "x - \<bar>x\<bar> / 2 ^ 53 \<le> nearestDouble x" "nearestDouble x \<le> x + \<bar>x\<bar> / 2 ^ 53"
proof -
  from nearestDouble_error [of x]
  have "nearestDouble x - x \<le> \<bar>x\<bar> / 2 ^ 53" and "- (nearestDouble x - x) \<le> \<bar>x\<bar> / 2 ^ 53"
    unfolding abs_le_iff by blast+
  then show "x - \<bar>x\<bar> / 2 ^ 53 \<le> nearestDouble x" "nearestDouble x \<le> x + \<bar>x\<bar> / 2 ^ 53"
    by linarith+
qed

lemma nearestDouble_lower: "0 \<le> x \<Longrightarrow> x * (1 - 1 / 2 ^ 53) \<le> nearestDouble x"
  using nearestDouble_bounds(1) [of x] by (simp add: algebra_simps)

lemma nearestDouble_upper: "0 \<le> x \<Longrightarrow> nearestDouble x \<le> x * (1 + 1 / 2 ^ 53)"
  using nearestDouble_bounds(2) [of x] by (simp add: algebra_simps)

lemma nearestDouble_pos: "0 < x \<Longrightarrow> 0 < nearestDouble x"
proof -
  assume x: "0 < x"
  then have "0 < x * (1 - 1 / 2 ^ 53)" by simp
  with nearestDouble_lower [of x] x show ?thesis by linarith
qed

lemma nearestDouble_nonneg: "0 \<le> x \<Longrightarrow> 0 \<le> nearestDouble x"
  using nearestDouble_pos [of x] by (cases "x = 0") (simp_all add: nearestDouble_def)

lemma nearestDouble_within:
  assumes "\<bar>x\<bar> \<le> b"
  shows "x - b / 2 ^ 53 \<le> nearestDouble x" and "nearestDouble x \<le> x + b / 2 ^ 53"
proof -
  have "\<bar>x\<bar> / 2 ^ 53 \<le> b / 2 ^ 53"
    using assms by (simp add: divide_right_mono)
  with nearestDouble_bounds [of x]
  show "x - b / 2 ^ 53 \<le> nearestDouble x" and "nearestDouble x \<le> x + b / 2 ^ 53"
    by linarith+
qed

section \<open>letterboxImage: geometry\<close>

lemma letterbox_fields:
  "canvasWidth (letterboxGeometry w h R) =
     (if nearestDouble (real w / real h) > R then real w else nearestDouble (real h * R))"
  "canvasHeight (letterboxGeometry w h R) =
     (if nearestDouble (real w / real h) > R then nearestDouble (real w / R) else real h)"
  "scale (letterboxGeometry w h R) =
     min (nearestDouble (1500 / canvasWidth (letterboxGeometry w h R)))
         (min (nearestDouble (1500 / canvasHeight (letterboxGeometry w h R))) 1)"
  "canvas_width (letterboxGeometry w h R) =
     toUnsignedLong (nearestDouble (canvasWidth (letterboxGeometry w h R) * scale (letterboxGeometry w h R)))"
  "canvas_height (letterboxGeometry w h R) =
     toUnsignedLong (nearestDouble (canvasHeight (letterboxGeometry w h R) * scale (letterboxGeometry w h R)))"
  "scaledImgWidth (letterboxGeometry w h R) = nearestDouble (real w * scale (letterboxGeometry w h R))"
  "scaledImgHeight (letterboxGeometry w h R) = nearestDouble (real h * scale (letterboxGeometry w h R))"
  "offsetX (letterboxGeometry w h R) =
     nearestDouble (nearestDouble (real (canvas_width (letterboxGeometry w h R))
                                   - scaledImgWidth (letterboxGeometry w h R)) / 2)"
  "offsetY (letterboxGeometry w h R) =
     nearestDouble (nearestDouble (real (canvas_height (letterboxGeometry w h R))
                                   - scaledImgHeight (letterboxGeometry w h R)) / 2)"
  by (simp_all add: letterboxGeometry_def Let_def)

text \<open>The canvas before scaling is at least as large as the image, up to two roundings.\<close>

lemma letterbox_sides:
  assumes "0 < R" and "0 < w" and "0 < h"
  shows "real w * (1 - 1 / 2 ^ 52) \<le> canvasWidth (letterboxGeometry w h R)"
    and "real h * (1 - 1 / 2 ^ 52) \<le> canvasHeight (letterboxGeometry w h R)"
proof -
  have wp: "0 < real w" and hp: "0 < real h" using assms by simp_all
  show "real w * (1 - 1 / 2 ^ 52) \<le> canvasWidth (letterboxGeometry w h R)"
  proof (cases "nearestDouble (real w / real h) > R")
    case True
    have "real w * (1 - 1 / 2 ^ 52) \<le> real w"
      using wp by (simp add: algebra_simps)
    with True show ?thesis by (simp add: letterbox_fields(1))
  next
    case False
    define P where "P = real h * R"
    have P0: "0 \<le> P" using hp assms(1) by (simp add: P_def)
    have "real w / real h * (1 - 1 / 2 ^ 53) \<le> nearestDouble (real w / real h)"
      using wp hp by (intro nearestDouble_lower) simp
    with False have "real w / real h * (1 - 1 / 2 ^ 53) \<le> R" by linarith
    then have "real w * (1 - 1 / 2 ^ 53) \<le> P"
      using hp by (simp add: P_def field_simps)
    moreover have "P * (1 - 1 / 2 ^ 53) \<le> nearestDouble P"
      by (rule nearestDouble_lower [OF P0])
    ultimately have "real w * (1 - 1 / 2 ^ 52) \<le> nearestDouble P"
      using wp by (simp add: algebra_simps, linarith?)
    with False show ?thesis by (simp add: letterbox_fields(1) P_def)
  qed
  show "real h * (1 - 1 / 2 ^ 52) \<le> canvasHeight (letterboxGeometry w h R)"
  proof (cases "nearestDouble (real w / real h) > R")
    case False
    have "real h * (1 - 1 / 2 ^ 52) \<le> real h"
      using hp by (simp add: algebra_simps)
    with False show ?thesis by (simp add: letterbox_fields(2))
  next
    case True
    define q where "q = real w / R"
    have q0: "0 \<le> q" using wp assms(1) by (simp add: q_def)
    have "nearestDouble (real w / real h) \<le> real w / real h * (1 + 1 / 2 ^ 53)"
      using wp hp by (intro nearestDouble_upper) simp
    with True have "R < real w / real h * (1 + 1 / 2 ^ 53)" by linarith
    then have "real h < q * (1 + 1 / 2 ^ 53)"
      using hp assms(1) by (simp add: q_def field_simps)
    moreover have "q * (1 - 1 / 2 ^ 53) \<le> nearestDouble q"
      by (rule nearestDouble_lower [OF q0])
    ultimately have "real h * (1 - 1 / 2 ^ 52) \<le> nearestDouble q"
      using hp q0 by (simp add: algebra_simps, linarith?)
    with True show ?thesis by (simp add: letterbox_fields(2) q_def)
  qed
qed

lemma letterbox_positive:
  assumes "0 < R" and "0 < w" and "0 < h"
  shows "0 < canvasWidth (letterboxGeometry w h R)" and "0 < canvasHeight (letterboxGeometry w h R)"
    and "0 < scale (letterboxGeometry w h R)" and "scale (letterboxGeometry w h R) \<le> 1"
proof -
  let ?g = "letterboxGeometry w h R"
  have "0 < real w * (1 - 1 / 2 ^ 52)" "0 < real h * (1 - 1 / 2 ^ 52)"
    using assms by simp_all
  with letterbox_sides [OF assms]
  show cw: "0 < canvasWidth ?g" and ch: "0 < canvasHeight ?g" by linarith+
  have "0 < nearestDouble (1500 / canvasWidth ?g)" "0 < nearestDouble (1500 / canvasHeight ?g)"
    using cw ch by (simp_all add: nearestDouble_pos)
  then show "0 < scale ?g" by (simp add: letterbox_fields(3))
  show "scale ?g \<le> 1" by (simp add: letterbox_fields(3))
qed

lemma letterbox_products:
  assumes "0 < R" and "0 < w" and "0 < h"
  shows "canvasWidth (letterboxGeometry w h R) * scale (letterboxGeometry w h R)
           \<le> 1500 * (1 + 1 / 2 ^ 53)"
    and "canvasHeight (letterboxGeometry w h R) * scale (letterboxGeometry w h R)
           \<le> 1500 * (1 + 1 / 2 ^ 53)"
proof -
  let ?g = "letterboxGeometry w h R"
  note pos = letterbox_positive [OF assms]
  have "scale ?g \<le> nearestDouble (1500 / canvasWidth ?g)"
    by (simp add: letterbox_fields(3))
  also have "\<dots> \<le> 1500 / canvasWidth ?g * (1 + 1 / 2 ^ 53)"
    using pos(1) by (intro nearestDouble_upper) simp
  finally have "canvasWidth ?g * scale ?g \<le> canvasWidth ?g * (1500 / canvasWidth ?g * (1 + 1 / 2 ^ 53))"
    using pos(1) by (intro mult_left_mono) simp_all
  then show "canvasWidth ?g * scale ?g \<le> 1500 * (1 + 1 / 2 ^ 53)"
    using pos(1) by simp
  have "scale ?g \<le> nearestDouble (1500 / canvasHeight ?g)"
    by (simp add: letterbox_fields(3))
  also have "\<dots> \<le> 1500 / canvasHeight ?g * (1 + 1 / 2 ^ 53)"
    using pos(2) by (intro nearestDouble_upper) simp
  finally have "canvasHeight ?g * scale ?g \<le> canvasHeight ?g * (1500 / canvasHeight ?g * (1 + 1 / 2 ^ 53))"
    using pos(2) by (intro mult_left_mono) simp_all
  then show "canvasHeight ?g * scale ?g \<le> 1500 * (1 + 1 / 2 ^ 53)"
    using pos(2) by simp
qed

text \<open>\<open>canvasWidth / canvasHeight\<close> is the target ratio up to the rounding of one
  operation.\<close>

lemma letterbox_ratio:
  assumes "0 < R" and "0 < w" and "0 < h"
  shows "\<bar>canvasWidth (letterboxGeometry w h R) - R * canvasHeight (letterboxGeometry w h R)\<bar>
           \<le> canvasWidth (letterboxGeometry w h R) / 2 ^ 52"
proof (cases "nearestDouble (real w / real h) > R")
  case True
  define q where "q = real w / R"
  have q0: "0 \<le> q" using assms by (simp add: q_def)
  have Rq: "R * q = real w" using assms(1) by (simp add: q_def)
  have "R * (q * (1 - 1 / 2 ^ 53)) \<le> R * nearestDouble q"
    using nearestDouble_lower [OF q0] assms(1) by (intro mult_left_mono) simp_all
  moreover have "R * nearestDouble q \<le> R * (q * (1 + 1 / 2 ^ 53))"
    using nearestDouble_upper [OF q0] assms(1) by (intro mult_left_mono) simp_all
  ultimately have "real w * (1 - 1 / 2 ^ 53) \<le> R * nearestDouble q"
    and "R * nearestDouble q \<le> real w * (1 + 1 / 2 ^ 53)"
    by (simp_all add: Rq mult.assoc [symmetric])
  then have "\<bar>real w - R * nearestDouble q\<bar> \<le> real w / 2 ^ 52"
    unfolding abs_le_iff by (simp add: algebra_simps, linarith?)
  with True show ?thesis by (simp add: letterbox_fields(1,2) q_def)
next
  case False
  define P where "P = real h * R"
  have P0: "0 \<le> P" using assms by (simp add: P_def)
  have "P * (1 - 1 / 2 ^ 53) \<le> nearestDouble P" "nearestDouble P \<le> P * (1 + 1 / 2 ^ 53)"
    by (rule nearestDouble_lower [OF P0], rule nearestDouble_upper [OF P0])
  then have "\<bar>nearestDouble P - P\<bar> \<le> nearestDouble P / 2 ^ 52"
    unfolding abs_le_iff using P0 by (simp add: algebra_simps, linarith?)
  with False show ?thesis by (simp add: letterbox_fields(1,2) P_def mult.commute)
qed

lemma toUnsignedLong_bounds:
  assumes "0 \<le> v"
  shows "real (toUnsignedLong v) \<le> v" and "v < real (toUnsignedLong v) + 1"
  using assms by (simp_all add: toUnsignedLong_def)

text \<open>One axis of the layout: the canvas side \<open>W\<close> cut out of \<open>c * s\<close>, the drawn
  side \<open>S\<close> computed from the image side \<open>a\<close>, and the offset that centres it.\<close>

lemma letterbox_axis:
  fixes a c s :: real
  assumes a: "0 < a" and c: "a * (1 - 1 / 2 ^ 52) \<le> c" and s: "0 < s"
    and p: "c * s \<le> 1500 * (1 + 1 / 2 ^ 53)"
  shows "toUnsignedLong (nearestDouble (c * s)) \<le> 1500"
    and "real (toUnsignedLong (nearestDouble (c * s))) \<le> nearestDouble (c * s)"
    and "nearestDouble (c * s) < real (toUnsignedLong (nearestDouble (c * s))) + 1"
    and "- (1 / 2) - 1 / 2 ^ 30
           < nearestDouble (nearestDouble (real (toUnsignedLong (nearestDouble (c * s)))
                                           - nearestDouble (a * s)) / 2)"
    and "\<bar>nearestDouble (nearestDouble (real (toUnsignedLong (nearestDouble (c * s)))
                                         - nearestDouble (a * s)) / 2)
           + nearestDouble (a * s)
           + nearestDouble (nearestDouble (real (toUnsignedLong (nearestDouble (c * s)))
                                           - nearestDouble (a * s)) / 2)
           - real (toUnsignedLong (nearestDouble (c * s)))\<bar> \<le> 1 / 2 ^ 30"
proof -
  define t where "t = a * s"
  define P where "P = c * s"
  define F where "F = nearestDouble P"
  define W where "W = toUnsignedLong F"
  define S where "S = nearestDouble t"
  define d where "d = real W - S"
  define D where "D = nearestDouble d"
  define off where "off = nearestDouble (D / 2)"
  have t0: "0 < t" using a s by (simp add: t_def)
  have "a * (1 - 1 / 2 ^ 52) * s \<le> c * s"
    using c s by (intro mult_right_mono) simp_all
  then have tP: "t * (1 - 1 / 2 ^ 52) \<le> P"
    by (simp add: t_def P_def algebra_simps)
  have P0: "0 \<le> P" using tP t0 by (simp add: algebra_simps, linarith?)
  have P1: "P \<le> 1500 * (1 + 1 / 2 ^ 53)" using p by (simp add: P_def)
  have F1: "P * (1 - 1 / 2 ^ 53) \<le> F" and F2: "F \<le> P * (1 + 1 / 2 ^ 53)"
    unfolding F_def by (rule nearestDouble_lower [OF P0], rule nearestDouble_upper [OF P0])
  have F0: "0 \<le> F" unfolding F_def by (rule nearestDouble_nonneg [OF P0])
  have W1: "real W \<le> F" and W2: "F < real W + 1"
    unfolding W_def by (rule toUnsignedLong_bounds [OF F0])+
  have "F < 1501" using F2 P1 by simp
  with W1 have "real W < 1501" by linarith
  then have W3: "W \<le> 1500" by simp
  have S1: "t * (1 - 1 / 2 ^ 53) \<le> S" and S2: "S \<le> t * (1 + 1 / 2 ^ 53)"
    unfolding S_def using t0 by (intro nearestDouble_lower nearestDouble_upper; simp)+
  have S0: "0 \<le> S" unfolding S_def using t0 by (intro nearestDouble_nonneg) simp
  have d1: "- 1 - 1 / 2 ^ 40 < d"
    unfolding d_def using W2 F1 tP S2 P1 t0 by simp
  have d2: "d \<le> 1500"
    unfolding d_def using W3 S0 by simp
  have "\<bar>d\<bar> \<le> 1500" using d1 d2 by simp
  then have D1: "d - 1500 / 2 ^ 53 \<le> D" and D2: "D \<le> d + 1500 / 2 ^ 53"
    unfolding D_def by (rule nearestDouble_within)+
  have "\<bar>D / 2\<bar> \<le> 751" using D1 D2 d1 d2 by simp
  then have o1: "D / 2 - 751 / 2 ^ 53 \<le> off" and o2: "off \<le> D / 2 + 751 / 2 ^ 53"
    unfolding off_def by (rule nearestDouble_within)+
  have r4: "- (1 / 2) - 1 / 2 ^ 30 < off"
    using o1 D1 d1 by simp
  have r5: "\<bar>off + S + off - real W\<bar> \<le> 1 / 2 ^ 30"
    unfolding abs_le_iff using o1 o2 D1 D2 by (simp add: d_def)
  show "toUnsignedLong (nearestDouble (c * s)) \<le> 1500"
    using W3 by (simp add: W_def F_def P_def)
  show "real (toUnsignedLong (nearestDouble (c * s))) \<le> nearestDouble (c * s)"
    using W1 by (simp add: W_def F_def P_def)
  show "nearestDouble (c * s) < real (toUnsignedLong (nearestDouble (c * s))) + 1"
    using W2 by (simp add: W_def F_def P_def)
  show "- (1 / 2) - 1 / 2 ^ 30
           < nearestDouble (nearestDouble (real (toUnsignedLong (nearestDouble (c * s)))
                                           - nearestDouble (a * s)) / 2)"
    using r4 by (simp add: off_def D_def d_def S_def W_def F_def P_def t_def)
  show "\<bar>nearestDouble (nearestDouble (real (toUnsignedLong (nearestDouble (c * s)))
                                         - nearestDouble (a * s)) / 2)
           + nearestDouble (a * s)
           + nearestDouble (nearestDouble (real (toUnsignedLong (nearestDouble (c * s)))
                                           - nearestDouble (a * s)) / 2)
           - real (toUnsignedLong (nearestDouble (c * s)))\<bar> \<le> 1 / 2 ^ 30"
    using r5 by (simp add: off_def D_def d_def S_def W_def F_def P_def t_def)
qed

section \<open>letterboxImage: the claims\<close>

lemma letterboxCanvas_size:
  "width (letterboxCanvas pf img R bg) = canvas_width (letterboxGeometry (width img) (height img) R)"
  "height (letterboxCanvas pf img R bg) = canvas_height (letterboxGeometry (width img) (height img) R)"
  by (simp_all add: letterboxCanvas_def Let_def drawImageScaled_def fillRect_def createCanvas_def)

lemma letterboxCanvas_background:
  assumes "X < width (letterboxCanvas pf img R bg)" and "Y < height (letterboxCanvas pf img R bg)"
    and "\<not> touches (offsetX (letterboxGeometry (width img) (height img) R))
                    (offsetY (letterboxGeometry (width img) (height img) R))
                    (scaledImgWidth (letterboxGeometry (width img) (height img) R))
                    (scaledImgHeight (letterboxGeometry (width img) (height img) R)) X Y"
  shows "pixel (letterboxCanvas pf img R bg) X Y = fillColor pf bg"
  using assms
  by (simp add: letterboxCanvas_def Let_def drawImageScaled_def fillRect_def createCanvas_def
        over_def transparent_def)

lemma letterboxCanvas_draw:
  "letterboxCanvas pf img R bg =
     drawImageScaled pf
       (fillRect pf (createCanvas (width (letterboxCanvas pf img R bg))
                                  (height (letterboxCanvas pf img R bg)))
          (fillColor pf bg) 0 0
          (width (letterboxCanvas pf img R bg)) (height (letterboxCanvas pf img R bg)))
       img
       (offsetX (letterboxGeometry (width img) (height img) R))
       (offsetY (letterboxGeometry (width img) (height img) R))
       (nearestDouble (real (width img) * scale (letterboxGeometry (width img) (height img) R)))
       (nearestDouble (real (height img) * scale (letterboxGeometry (width img) (height img) R)))"
  unfolding letterboxCanvas_size
  by (simp add: letterboxCanvas_def Let_def createCanvas_def letterbox_fields(6,7))

lemma letterboxImage_result:
  assumes "decodeImage pf imageDataUrl = Some img" and "context2d pf"
  shows "letterboxImage pf imageDataUrl R bg =
           Inr (toDataURL pf (letterboxCanvas pf img R (backgroundOf bg)))"
  using assms by (simp add: letterboxImage_def loadImage_def)

text \<open>
  C9, with the arithmetic of the source. For every source image (of positive size, that
  loads) and every target aspect ratio \<open>R\<close> (between \<open>2^-100\<close> and \<open>2^100\<close>, so that
  no operation overflows or underflows), both dimensions of the canvas
  \<open>letterboxImage\<close> encodes are at most 1500 pixels: they are the integer parts of the
  computed \<open>canvasWidth * scale\<close> and \<open>canvasHeight * scale\<close>, where \<open>canvasWidth\<close>
  and \<open>canvasHeight\<close> are positive, one of them the image's own side and the other
  computed from the other side and \<open>R\<close>. The source is drawn into it scaled on both axes
  by the same positive factor \<open>min(1500 / canvasWidth, 1500 / canvasHeight, 1)\<close>,
  which is at most 1. Each operation yields its exact result up to a relative error of
  \<open>2^-53\<close>.
\<close>

theorem letterboxImage_at_most_1500:
  assumes "decodeImage pf imageDataUrl = Some img" and "context2d pf"
    and "0 < width img" and "0 < height img"
    and "1 / 2 ^ 100 \<le> R" and "R \<le> 2 ^ 100"
  shows "\<exists>g cv filled.
           g = letterboxGeometry (width img) (height img) R \<and>
           letterboxImage pf imageDataUrl R bg = Inr (toDataURL pf cv) \<and>
           cv = letterboxCanvas pf img R (backgroundOf bg) \<and>
           width cv \<le> 1500 \<and> height cv \<le> 1500 \<and>
           width cv = toUnsignedLong (nearestDouble (canvasWidth g * scale g)) \<and>
           height cv = toUnsignedLong (nearestDouble (canvasHeight g * scale g)) \<and>
           canvasWidth g = (if nearestDouble (real (width img) / real (height img)) > R
                            then real (width img) else nearestDouble (real (height img) * R)) \<and>
           canvasHeight g = (if nearestDouble (real (width img) / real (height img)) > R
                             then nearestDouble (real (width img) / R) else real (height img)) \<and>
           0 < canvasWidth g \<and> 0 < canvasHeight g \<and> 0 < scale g \<and>
           scale g = min (nearestDouble (1500 / canvasWidth g))
                         (min (nearestDouble (1500 / canvasHeight g)) 1) \<and>
           scale g \<le> 1 \<and>
           filled = fillRect pf (createCanvas (width cv) (height cv))
                      (fillColor pf (backgroundOf bg)) 0 0 (width cv) (height cv) \<and>
           cv = drawImageScaled pf filled img (offsetX g) (offsetY g)
                  (nearestDouble (real (width img) * scale g))
                  (nearestDouble (real (height img) * scale g)) \<and>
           (\<forall>x. \<bar>nearestDouble x - x\<bar> \<le> \<bar>x\<bar> / 2 ^ 53)"
proof -
  let ?g = "letterboxGeometry (width img) (height img) R"
  let ?cv = "letterboxCanvas pf img R (backgroundOf bg)"
  have R: "0 < R" using assms(5) by (rule less_le_trans [rotated]) simp
  note pos = letterbox_positive [OF R assms(3,4)]
  note sides = letterbox_sides [OF R assms(3,4)]
  note prods = letterbox_products [OF R assms(3,4)]
  have w: "0 < real (width img)" and h: "0 < real (height img)" using assms(3,4) by simp_all
  have a: "letterboxImage pf imageDataUrl R bg = Inr (toDataURL pf ?cv)"
    by (rule letterboxImage_result [OF assms(1,2)])
  have b: "width ?cv \<le> 1500" "height ?cv \<le> 1500"
    unfolding letterboxCanvas_size letterbox_fields(4,5)
    by (rule letterbox_axis(1) [OF w sides(1) pos(3) prods(1)],
        rule letterbox_axis(1) [OF h sides(2) pos(3) prods(2)])
  have c: "width ?cv = toUnsignedLong (nearestDouble (canvasWidth ?g * scale ?g))"
    "height ?cv = toUnsignedLong (nearestDouble (canvasHeight ?g * scale ?g))"
    by (simp_all add: letterboxCanvas_size letterbox_fields(4,5))
  note d = letterbox_fields(1,2) [of "width img" "height img" R]
  note e = letterbox_fields(3) [of "width img" "height img" R]
  note f = letterboxCanvas_draw [of pf img R "backgroundOf bg"]
  have n: "\<forall>x. \<bar>nearestDouble x - x\<bar> \<le> \<bar>x\<bar> / 2 ^ 53"
    by (intro allI) (rule nearestDouble_error)
  let ?filled = "fillRect pf (createCanvas (width ?cv) (height ?cv))
                   (fillColor pf (backgroundOf bg)) 0 0 (width ?cv) (height ?cv)"
  show ?thesis
    by (rule exI [of _ ?g], rule exI [of _ ?cv], rule exI [of _ ?filled])
      (intro conjI refl a b c d pos e f n)
qed

theorem letterboxImage_at_most_1500_witness:
  "decodeImage demoPlatform ''white'' = Some whiteImage \<and> context2d demoPlatform \<and>
   0 < width whiteImage \<and> 0 < height whiteImage \<and>
   (1::real) / 2 ^ 100 \<le> 3 / 8 \<and> (3::real) / 8 \<le> 2 ^ 100 \<and>
   (\<exists>g cv filled.
           g = letterboxGeometry (width whiteImage) (height whiteImage) (3 / 8) \<and>
           letterboxImage demoPlatform ''white'' (3 / 8) None = Inr (toDataURL demoPlatform cv) \<and>
           cv = letterboxCanvas demoPlatform whiteImage (3 / 8) (backgroundOf None) \<and>
           width cv \<le> 1500 \<and> height cv \<le> 1500 \<and>
           width cv = toUnsignedLong (nearestDouble (canvasWidth g * scale g)) \<and>
           height cv = toUnsignedLong (nearestDouble (canvasHeight g * scale g)) \<and>
           canvasWidth g = (if nearestDouble (real (width whiteImage) / real (height whiteImage)) > 3 / 8
                            then real (width whiteImage)
                            else nearestDouble (real (height whiteImage) * (3 / 8))) \<and>
           canvasHeight g = (if nearestDouble (real (width whiteImage) / real (height whiteImage)) > 3 / 8
                             then nearestDouble (real (width whiteImage) / (3 / 8))
                             else real (height whiteImage)) \<and>
           0 < canvasWidth g \<and> 0 < canvasHeight g \<and> 0 < scale g \<and>
           scale g = min (nearestDouble (1500 / canvasWidth g))
                         (min (nearestDouble (1500 / canvasHeight g)) 1) \<and>
           scale g \<le> 1 \<and>
           filled = fillRect demoPlatform (createCanvas (width cv) (height cv))
                      (fillColor demoPlatform (backgroundOf None)) 0 0 (width cv) (height cv) \<and>
           cv = drawImageScaled demoPlatform filled whiteImage (offsetX g) (offsetY g)
                  (nearestDouble (real (width whiteImage) * scale g))
                  (nearestDouble (real (height whiteImage) * scale g)) \<and>
           (\<forall>x. \<bar>nearestDouble x - x\<bar> \<le> \<bar>x\<bar> / 2 ^ 53))"
proof -
  have w: "0 < width whiteImage" and h: "0 < height whiteImage"
    by (simp_all add: white_size)
  have r1: "(1::real) / 2 ^ 100 \<le> 3 / 8" and r2: "(3::real) / 8 \<le> 2 ^ 100"
    by simp_all
  note inst = letterboxImage_at_most_1500 [OF white_loads demo_context w h r1 r2, of None]
  show ?thesis
    by (rule conjI [OF white_loads conjI [OF demo_context conjI [OF w conjI [OF h
          conjI [OF r1 conjI [OF r2 inst]]]]]])
qed


text \<open>
  C3, as the code has it. For every source image (of positive size, that loads) and
  target aspect ratio \<open>R\<close> (between \<open>2^-100\<close> and \<open>2^100\<close>), \<open>letterboxImage\<close>
  encodes a canvas whose sides are the integer parts of the computed
  \<open>canvasWidth * scale\<close> and \<open>canvasHeight * scale\<close>, where \<open>canvasWidth\<close> differs
  from \<open>R * canvasHeight\<close> by at most the rounding of one operation: its ratio is \<open>R\<close>
  up to rounding and the truncation of each side to whole pixels. The canvas is filled
  with the background colour, the given one or white by default, and the source is drawn
  once, scaled by the same positive factor on both axes and centred up to rounding (the
  margins left and right, and top and bottom, differ by at most \<open>2^-30\<close> pixel); a
  margin is never below minus half a pixel by more than \<open>2^-30\<close>. Every canvas pixel
  that the drawn rectangle does not touch has the background colour. Each operation
  yields its exact result up to a relative error of \<open>2^-53\<close>.
\<close>

theorem letterboxImage_fits_and_centres:
  assumes "decodeImage pf imageDataUrl = Some img" and "context2d pf"
    and "0 < width img" and "0 < height img"
    and "1 / 2 ^ 100 \<le> R" and "R \<le> 2 ^ 100"
  shows "\<exists>g cv filled.
           g = letterboxGeometry (width img) (height img) R \<and>
           letterboxImage pf imageDataUrl R bg = Inr (toDataURL pf cv) \<and>
           cv = letterboxCanvas pf img R (backgroundOf bg) \<and>
           backgroundOf None = ''#FFFFFF'' \<and> (\<forall>c. backgroundOf (Some c) = c) \<and>
           \<bar>canvasWidth g - R * canvasHeight g\<bar> \<le> canvasWidth g / 2 ^ 52 \<and>
           0 < canvasWidth g \<and> 0 < canvasHeight g \<and> 0 < scale g \<and> scale g \<le> 1 \<and>
           real (width cv) \<le> nearestDouble (canvasWidth g * scale g) \<and>
           nearestDouble (canvasWidth g * scale g) < real (width cv) + 1 \<and>
           real (height cv) \<le> nearestDouble (canvasHeight g * scale g) \<and>
           nearestDouble (canvasHeight g * scale g) < real (height cv) + 1 \<and>
           filled = fillRect pf (createCanvas (width cv) (height cv))
                      (fillColor pf (backgroundOf bg)) 0 0 (width cv) (height cv) \<and>
           cv = drawImageScaled pf filled img (offsetX g) (offsetY g)
                  (nearestDouble (real (width img) * scale g))
                  (nearestDouble (real (height img) * scale g)) \<and>
           \<bar>offsetX g + nearestDouble (real (width img) * scale g) + offsetX g
              - real (width cv)\<bar> \<le> 1 / 2 ^ 30 \<and>
           \<bar>offsetY g + nearestDouble (real (height img) * scale g) + offsetY g
              - real (height cv)\<bar> \<le> 1 / 2 ^ 30 \<and>
           - (1 / 2) - 1 / 2 ^ 30 < offsetX g \<and> - (1 / 2) - 1 / 2 ^ 30 < offsetY g \<and>
           (\<forall>X Y. X < width cv \<and> Y < height cv \<and>
                  \<not> touches (offsetX g) (offsetY g)
                       (nearestDouble (real (width img) * scale g))
                       (nearestDouble (real (height img) * scale g)) X Y
                  \<longrightarrow> pixel cv X Y = fillColor pf (backgroundOf bg)) \<and>
           (\<forall>x. \<bar>nearestDouble x - x\<bar> \<le> \<bar>x\<bar> / 2 ^ 53)"
proof -
  let ?g = "letterboxGeometry (width img) (height img) R"
  let ?cv = "letterboxCanvas pf img R (backgroundOf bg)"
  have R: "0 < R" using assms(5) by (rule less_le_trans [rotated]) simp
  note pos = letterbox_positive [OF R assms(3,4)]
  note sides = letterbox_sides [OF R assms(3,4)]
  note prods = letterbox_products [OF R assms(3,4)]
  note ax = letterbox_axis [where s = "scale ?g"]
  have w: "0 < real (width img)" and h: "0 < real (height img)" using assms(3,4) by simp_all
  have a: "letterboxImage pf imageDataUrl R bg = Inr (toDataURL pf ?cv)"
    by (rule letterboxImage_result [OF assms(1,2)])
  have bg: "backgroundOf None = ''#FFFFFF''" "\<forall>c. backgroundOf (Some c) = c"
    by (simp_all add: backgroundOf_def)
  note ratio = letterbox_ratio [OF R assms(3,4)]
  have c: "real (width ?cv) \<le> nearestDouble (canvasWidth ?g * scale ?g)"
    "nearestDouble (canvasWidth ?g * scale ?g) < real (width ?cv) + 1"
    unfolding letterboxCanvas_size letterbox_fields(4,5)
    by (rule ax(2) [OF w sides(1) pos(3) prods(1)], rule ax(3) [OF w sides(1) pos(3) prods(1)])
  have d: "real (height ?cv) \<le> nearestDouble (canvasHeight ?g * scale ?g)"
    "nearestDouble (canvasHeight ?g * scale ?g) < real (height ?cv) + 1"
    unfolding letterboxCanvas_size letterbox_fields(4,5)
    by (rule ax(2) [OF h sides(2) pos(3) prods(2)], rule ax(3) [OF h sides(2) pos(3) prods(2)])
  note f = letterboxCanvas_draw [of pf img R "backgroundOf bg"]
  have ox: "offsetX ?g = nearestDouble (nearestDouble
              (real (toUnsignedLong (nearestDouble (canvasWidth ?g * scale ?g)))
               - nearestDouble (real (width img) * scale ?g)) / 2)"
    by (simp add: letterbox_fields(8) letterbox_fields(4) letterbox_fields(6))
  have oy: "offsetY ?g = nearestDouble (nearestDouble
              (real (toUnsignedLong (nearestDouble (canvasHeight ?g * scale ?g)))
               - nearestDouble (real (height img) * scale ?g)) / 2)"
    by (simp add: letterbox_fields(9) letterbox_fields(5) letterbox_fields(7))
  have wd: "width ?cv = toUnsignedLong (nearestDouble (canvasWidth ?g * scale ?g))"
    "height ?cv = toUnsignedLong (nearestDouble (canvasHeight ?g * scale ?g))"
    by (simp_all add: letterboxCanvas_size letterbox_fields(4,5))
  have cx: "\<bar>offsetX ?g + nearestDouble (real (width img) * scale ?g) + offsetX ?g
              - real (width ?cv)\<bar> \<le> 1 / 2 ^ 30"
    unfolding ox wd by (rule ax(5) [OF w sides(1) pos(3) prods(1)])
  have cy: "\<bar>offsetY ?g + nearestDouble (real (height img) * scale ?g) + offsetY ?g
              - real (height ?cv)\<bar> \<le> 1 / 2 ^ 30"
    unfolding oy wd by (rule ax(5) [OF h sides(2) pos(3) prods(2)])
  have mx: "- (1 / 2) - 1 / 2 ^ 30 < offsetX ?g"
    unfolding ox by (rule ax(4) [OF w sides(1) pos(3) prods(1)])
  have my: "- (1 / 2) - 1 / 2 ^ 30 < offsetY ?g"
    unfolding oy by (rule ax(4) [OF h sides(2) pos(3) prods(2)])
  have bgp: "\<forall>X Y. X < width ?cv \<and> Y < height ?cv \<and>
                  \<not> touches (offsetX ?g) (offsetY ?g)
                       (nearestDouble (real (width img) * scale ?g))
                       (nearestDouble (real (height img) * scale ?g)) X Y
                  \<longrightarrow> pixel ?cv X Y = fillColor pf (backgroundOf bg)"
    using letterboxCanvas_background [of _ pf img R "backgroundOf bg"]
    by (simp add: letterbox_fields(6,7))
  have n: "\<forall>x. \<bar>nearestDouble x - x\<bar> \<le> \<bar>x\<bar> / 2 ^ 53"
    by (intro allI) (rule nearestDouble_error)
  let ?filled = "fillRect pf (createCanvas (width ?cv) (height ?cv))
                   (fillColor pf (backgroundOf bg)) 0 0 (width ?cv) (height ?cv)"
  show ?thesis
    by (rule exI [of _ ?g], rule exI [of _ ?cv], rule exI [of _ ?filled])
      (intro conjI refl a bg ratio pos c d f cx cy mx my bgp n)
qed

text \<open>A 2 x 2 image letterboxed to the ratio 3/8: \<open>canvasHeight\<close> is the double nearest
  to \<open>16/3\<close>, the scale is 1, the canvas is 2 x 5, and \<open>2/5\<close> is not \<open>3/8\<close>.\<close>

lemma small_doubles: "nearestDouble 1 = 1" "nearestDouble 2 = 2" "nearestDouble 750 = 750"
  using nearestDouble_nat [of 1] nearestDouble_nat [of 2] nearestDouble_nat [of 750] by simp_all

lemma white_letterbox:
  "canvas_width (letterboxGeometry 2 2 (3 / 8)) = 2"
  "canvas_height (letterboxGeometry 2 2 (3 / 8)) = 5"
proof -
  let ?g = "letterboxGeometry 2 2 (3 / 8)"
  define y where "y = nearestDouble (16 / 3)"
  have y1: "16 / 3 * (1 - 1 / 2 ^ 53) \<le> y" and y2: "y \<le> 16 / 3 * (1 + 1 / 2 ^ 53)"
    unfolding y_def by (intro nearestDouble_lower nearestDouble_upper; simp)+
  have y0: "0 < y" using y1 by simp
  have cw: "canvasWidth ?g = 2"
    by (simp add: letterbox_fields(1) small_doubles)
  have ch: "canvasHeight ?g = y"
    by (simp add: letterbox_fields(2) small_doubles y_def)
  have "250 \<le> 1500 / y"
    using y0 y2 by (simp add: field_simps)
  moreover have "1500 / y * (1 - 1 / 2 ^ 53) \<le> nearestDouble (1500 / y)"
    using y0 by (intro nearestDouble_lower) simp
  ultimately have "1 \<le> nearestDouble (1500 / y)"
    by simp
  then have s: "scale ?g = 1"
    by (simp add: letterbox_fields(3) cw ch small_doubles)
  show "canvas_width ?g = 2"
    by (simp add: letterbox_fields(4) cw s small_doubles toUnsignedLong_def)
  have "y * (1 - 1 / 2 ^ 53) \<le> nearestDouble y" "nearestDouble y \<le> y * (1 + 1 / 2 ^ 53)"
    using y0 by (intro nearestDouble_lower nearestDouble_upper; simp)+
  then have "5 \<le> nearestDouble y" "nearestDouble y < 6"
    using y1 y2 by simp_all
  then have "\<lfloor>nearestDouble y\<rfloor> = 5"
    by (simp add: floor_eq_iff)
  then show "canvas_height ?g = 5"
    by (simp add: letterbox_fields(5) ch s toUnsignedLong_def)
qed


text \<open>
  The rounding shows in the layout. A 370 x 330 image letterboxed to its own ratio, the
  double \<open>370 / 330\<close>: the product \<open>330 * (370 / 330)\<close> rounds to the double just
  below 370, the canvas is 369 pixels wide, and the image, drawn 370 wide, starts half a
  pixel left of it.
\<close>

lemma nearestDouble_binade:
  assumes "2 ^ k \<le> x" and "x < 2 ^ Suc k"
  shows "nearestDouble x = of_int (roundToEven (x * 2 ^ 52 / 2 ^ k)) * 2 ^ k / 2 ^ 52"
proof -
  have x0: "0 < x" using assms(1) by (rule less_le_trans [rotated]) simp
  have "real k \<le> log 2 x"
    using x0 assms(1) by (simp add: le_log_iff powr_realpow)
  moreover have "log 2 x < real k + 1"
    using x0 assms(2) by (simp add: log_less_iff powr_add powr_realpow)
  ultimately have e: "\<lfloor>log 2 x\<rfloor> = int k"
    by (simp add: floor_eq_iff)
  have ulp: "(2::real) powr (real k - 52) = 2 ^ k / 2 ^ 52"
    by (simp add: powr_diff powr_realpow powr_numeral)
  have "nearestDouble x = of_int (roundToEven (x / (2 ^ k / 2 ^ 52))) * (2 ^ k / 2 ^ 52)"
    using x0 by (simp add: nearestDouble_def Let_def e ulp)
  then show ?thesis
    by simp
qed

lemma ratio_370_330: "nearestDouble (370 / 330) = 5049490491294192 / 2 ^ 52"
proof -
  have "nearestDouble (370 / 330) = of_int (roundToEven (370 / 330 * 2 ^ 52 / 2 ^ 0)) * 2 ^ 0 / 2 ^ 52"
    by (rule nearestDouble_binade) simp_all
  moreover have "roundToEven (370 / 330 * 2 ^ 52 / 2 ^ 0) = 5049490491294192"
    by (simp add: roundToEven_def Let_def)
  ultimately show ?thesis by simp
qed

lemma product_330: "nearestDouble (330 * (5049490491294192 / 2 ^ 52)) = 6509108836433919 / 2 ^ 44"
proof -
  have "nearestDouble (330 * (5049490491294192 / 2 ^ 52)) =
          of_int (roundToEven (330 * (5049490491294192 / 2 ^ 52) * 2 ^ 52 / 2 ^ 8)) * 2 ^ 8 / 2 ^ 52"
    by (rule nearestDouble_binade) simp_all
  moreover have "roundToEven (330 * (5049490491294192 / 2 ^ 52) * 2 ^ 52 / 2 ^ 8) = 6509108836433919"
    by (simp add: roundToEven_def Let_def)
  ultimately show ?thesis by simp
qed

lemma roundToEven_minus: "roundToEven (- q) = - roundToEven q"
proof (cases "q \<in> \<int>")
  case True
  then obtain k where q: "q = of_int k" by (auto elim: Ints_cases)
  have "roundToEven (of_int (- k)) = - k" by (rule roundToEven_int)
  then show ?thesis by (simp add: q roundToEven_int)
next
  case False
  then have ne: "q \<noteq> of_int \<lfloor>q\<rfloor>"
    by (metis Ints_of_int)
  then have c: "\<lceil>q\<rceil> = \<lfloor>q\<rfloor> + 1"
    by (simp add: ceiling_altdef)
  have f: "\<lfloor>- q\<rfloor> = - \<lfloor>q\<rfloor> - 1"
    by (simp add: floor_minus c)
  have "of_int \<lfloor>q\<rfloor> \<le> q"
    by simp
  with ne have r: "0 < q - of_int \<lfloor>q\<rfloor>"
    by linarith
  show ?thesis
    unfolding roundToEven_def Let_def f using r by (auto simp: algebra_simps)
qed

lemma nearestDouble_minus: "nearestDouble (- x) = - nearestDouble x"
  by (simp add: nearestDouble_def Let_def roundToEven_minus)

lemma nearestDouble_half: "nearestDouble (x / 2) = nearestDouble x / 2"
proof (cases "x = 0")
  case True
  then show ?thesis by (simp add: nearestDouble_def)
next
  case False
  have "log 2 \<bar>x / 2\<bar> = log 2 \<bar>x\<bar> - 1"
    using False by (simp add: log_divide)
  then have e: "\<lfloor>log 2 \<bar>x / 2\<bar>\<rfloor> = \<lfloor>log 2 \<bar>x\<bar>\<rfloor> - 1"
    by simp
  have u: "(2::real) powr (of_int (\<lfloor>log 2 \<bar>x\<bar>\<rfloor> - 1) - 52) = 2 powr (of_int \<lfloor>log 2 \<bar>x\<bar>\<rfloor> - 52) / 2"
    by (simp add: powr_diff)
  show ?thesis
    using False unfolding nearestDouble_def Let_def e u by simp
qed

lemma letterbox_rounding_example:
  "canvasWidth (letterboxGeometry 370 330 (nearestDouble (370 / 330))) = 6509108836433919 / 2 ^ 44"
  "canvas_width (letterboxGeometry 370 330 (nearestDouble (370 / 330))) = 369"
  "scaledImgWidth (letterboxGeometry 370 330 (nearestDouble (370 / 330))) = 370"
  "offsetX (letterboxGeometry 370 330 (nearestDouble (370 / 330))) = - (1 / 2)"
proof -
  define R where "R = nearestDouble (370 / 330)"
  define cw :: real where "cw = 6509108836433919 / 2 ^ 44"
  let ?g = "letterboxGeometry 370 330 R"
  have cmp: "nearestDouble (real 370 / real 330) = R"
    unfolding R_def by simp
  have "canvasWidth ?g = nearestDouble (330 * R)"
    unfolding letterbox_fields(1) cmp by simp
  also have "\<dots> = nearestDouble (330 * (5049490491294192 / 2 ^ 52))"
    unfolding R_def by (simp only: ratio_370_330)
  also have "\<dots> = cw"
    by (simp only: product_330 cw_def)
  finally have cw: "canvasWidth ?g = cw" .
  have ch: "canvasHeight ?g = 330"
    unfolding letterbox_fields(2) cmp by simp
  have "1500 / cw * (1 - 1 / 2 ^ 53) \<le> nearestDouble (1500 / cw)"
    by (intro nearestDouble_lower) (simp add: cw_def)
  then have s1: "1 \<le> nearestDouble (1500 / cw)"
    by (simp add: cw_def)
  have "1500 / 330 * (1 - 1 / 2 ^ 53) \<le> nearestDouble (1500 / 330)"
    by (intro nearestDouble_lower) simp
  then have s2: "1 \<le> nearestDouble (1500 / 330)"
    by simp
  have s: "scale ?g = 1"
    unfolding letterbox_fields(3) cw ch using s1 s2 by simp
  have "cw * (1 - 1 / 2 ^ 53) \<le> nearestDouble cw" "nearestDouble cw \<le> cw * (1 + 1 / 2 ^ 53)"
    by (intro nearestDouble_lower nearestDouble_upper; simp add: cw_def)+
  then have "369 \<le> nearestDouble cw" "nearestDouble cw < 370"
    by (simp_all add: cw_def)
  then have "\<lfloor>nearestDouble cw\<rfloor> = 369"
    by (simp add: floor_eq_iff)
  then have w: "canvas_width ?g = 369"
    unfolding letterbox_fields(4) cw s by (simp add: toUnsignedLong_def)
  have sw: "scaledImgWidth ?g = 370"
    unfolding letterbox_fields(6) s using nearestDouble_nat [of 370] by simp
  have "nearestDouble (nearestDouble (- 1) / 2) = - (1 / 2)"
    by (simp add: nearestDouble_half nearestDouble_minus small_doubles)
  then have off: "offsetX ?g = - (1 / 2)"
    unfolding letterbox_fields(8) w sw by simp
  show "canvasWidth (letterboxGeometry 370 330 (nearestDouble (370 / 330))) = 6509108836433919 / 2 ^ 44"
    using cw unfolding cw_def R_def .
  show "canvas_width (letterboxGeometry 370 330 (nearestDouble (370 / 330))) = 369"
    using w unfolding R_def .
  show "scaledImgWidth (letterboxGeometry 370 330 (nearestDouble (370 / 330))) = 370"
    using sw unfolding R_def .
  show "offsetX (letterboxGeometry 370 330 (nearestDouble (370 / 330))) = - (1 / 2)"
    using off unfolding R_def .
qed

text \<open>Both examples against C3: the 2 x 5 canvas does not have the ratio 3/8, and of
  the 370 pixels of the second image half a pixel on each side falls outside the 369
  pixels of its canvas.\<close>

theorem letterboxImage_ratio_counterexample:
  "letterboxImage demoPlatform ''white'' (3 / 8) None =
     Inr (toDataURL demoPlatform (letterboxCanvas demoPlatform whiteImage (3 / 8) ''#FFFFFF'')) \<and>
   width (letterboxCanvas demoPlatform whiteImage (3 / 8) ''#FFFFFF'') = 2 \<and>
   height (letterboxCanvas demoPlatform whiteImage (3 / 8) ''#FFFFFF'') = 5 \<and>
   real (width (letterboxCanvas demoPlatform whiteImage (3 / 8) ''#FFFFFF''))
     / real (height (letterboxCanvas demoPlatform whiteImage (3 / 8) ''#FFFFFF'')) \<noteq> 3 / 8 \<and>
   canvas_width (letterboxGeometry 370 330 (nearestDouble (370 / 330))) = 369 \<and>
   scaledImgWidth (letterboxGeometry 370 330 (nearestDouble (370 / 330))) = 370 \<and>
   offsetX (letterboxGeometry 370 330 (nearestDouble (370 / 330))) = - (1 / 2)"
proof -
  have a: "letterboxImage demoPlatform ''white'' (3 / 8) None =
     Inr (toDataURL demoPlatform (letterboxCanvas demoPlatform whiteImage (3 / 8) ''#FFFFFF''))"
    using letterboxImage_result [OF white_loads demo_context, of "3 / 8" None]
    by (simp add: backgroundOf_def)
  have b: "width (letterboxCanvas demoPlatform whiteImage (3 / 8) ''#FFFFFF'') = 2"
          "height (letterboxCanvas demoPlatform whiteImage (3 / 8) ''#FFFFFF'') = 5"
    by (simp_all add: letterboxCanvas_size white_size white_letterbox)
  have c: "real (width (letterboxCanvas demoPlatform whiteImage (3 / 8) ''#FFFFFF''))
     / real (height (letterboxCanvas demoPlatform whiteImage (3 / 8) ''#FFFFFF'')) \<noteq> 3 / 8"
    by (simp add: b)
  show ?thesis
    by (intro conjI a b c letterbox_rounding_example(2,3,4))
qed

theorem letterboxImage_fits_and_centres_witness:
  "decodeImage demoPlatform ''white'' = Some whiteImage \<and> context2d demoPlatform \<and>
   0 < width whiteImage \<and> 0 < height whiteImage \<and>
   (1::real) / 2 ^ 100 \<le> 3 / 8 \<and> (3::real) / 8 \<le> 2 ^ 100 \<and>
   (\<exists>g cv filled.
           g = letterboxGeometry (width whiteImage) (height whiteImage) (3 / 8) \<and>
           letterboxImage demoPlatform ''white'' (3 / 8) None = Inr (toDataURL demoPlatform cv) \<and>
           cv = letterboxCanvas demoPlatform whiteImage (3 / 8) (backgroundOf None) \<and>
           backgroundOf None = ''#FFFFFF'' \<and> (\<forall>c. backgroundOf (Some c) = c) \<and>
           \<bar>canvasWidth g - 3 / 8 * canvasHeight g\<bar> \<le> canvasWidth g / 2 ^ 52 \<and>
           0 < canvasWidth g \<and> 0 < canvasHeight g \<and> 0 < scale g \<and> scale g \<le> 1 \<and>
           real (width cv) \<le> nearestDouble (canvasWidth g * scale g) \<and>
           nearestDouble (canvasWidth g * scale g) < real (width cv) + 1 \<and>
           real (height cv) \<le> nearestDouble (canvasHeight g * scale g) \<and>
           nearestDouble (canvasHeight g * scale g) < real (height cv) + 1 \<and>
           filled = fillRect demoPlatform (createCanvas (width cv) (height cv))
                      (fillColor demoPlatform (backgroundOf None)) 0 0 (width cv) (height cv) \<and>
           cv = drawImageScaled demoPlatform filled whiteImage (offsetX g) (offsetY g)
                  (nearestDouble (real (width whiteImage) * scale g))
                  (nearestDouble (real (height whiteImage) * scale g)) \<and>
           \<bar>offsetX g + nearestDouble (real (width whiteImage) * scale g) + offsetX g
              - real (width cv)\<bar> \<le> 1 / 2 ^ 30 \<and>
           \<bar>offsetY g + nearestDouble (real (height whiteImage) * scale g) + offsetY g
              - real (height cv)\<bar> \<le> 1 / 2 ^ 30 \<and>
           - (1 / 2) - 1 / 2 ^ 30 < offsetX g \<and> - (1 / 2) - 1 / 2 ^ 30 < offsetY g \<and>
           (\<forall>X Y. X < width cv \<and> Y < height cv \<and>
                  \<not> touches (offsetX g) (offsetY g)
                       (nearestDouble (real (width whiteImage) * scale g))
                       (nearestDouble (real (height whiteImage) * scale g)) X Y
                  \<longrightarrow> pixel cv X Y = fillColor demoPlatform (backgroundOf None)) \<and>
           (\<forall>x. \<bar>nearestDouble x - x\<bar> \<le> \<bar>x\<bar> / 2 ^ 53))"
proof -
  have w: "0 < width whiteImage" and h: "0 < height whiteImage"
    by (simp_all add: white_size)
  have r1: "(1::real) / 2 ^ 100 \<le> 3 / 8" and r2: "(3::real) / 8 \<le> 2 ^ 100"
    by simp_all
  note inst = letterboxImage_fits_and_centres [OF white_loads demo_context w h r1 r2, of None]
  show ?thesis
    by (rule conjI [OF white_loads conjI [OF demo_context conjI [OF w conjI [OF h
          conjI [OF r1 conjI [OF r2 inst]]]]]])
qed
section \<open>mixImages: the collage\<close>

lemma cellPlacement_row:
  assumes "r < length gridImages"
  shows "cellPlacement pf gridImages padding cw ch r c =
           Inr (map (Pair (loadTime pf r c)) (cellDraws pf gridImages padding cw ch r c))"
  using assms
  by (simp add: cellPlacement_def cellAt_def cellDraws_def loadImage_def Let_def
        split: option.splits)

lemma colLoop_row:
  assumes "r < length gridImages"
  shows "colLoop pf gridImages padding cw ch r cs =
           Inr (concat (map (\<lambda>c. map (Pair (loadTime pf r c))
                                    (cellDraws pf gridImages padding cw ch r c)) cs))"
  by (induction cs) (simp_all add: cellPlacement_row [OF assms])

lemma rowLoop_rows:
  assumes "\<forall>r \<in> set rs. r < length gridImages"
  shows "rowLoop pf gridImages padding cw ch cols rs =
           Inr (concat (map (\<lambda>r. concat (map (\<lambda>c. map (Pair (loadTime pf r c))
                  (cellDraws pf gridImages padding cw ch r c)) [0..<cols])) rs))"
  using assms by (induction rs) (simp_all add: colLoop_row)

lemma timed_draws:
  "map snd (concat (map (\<lambda>r. concat (map (\<lambda>c. map (Pair (t r c)) (f r c)) cs)) rs)) =
     concat (map (\<lambda>r. concat (map (f r) cs)) rs)"
  by (simp add: map_concat comp_def)

lemma set_drawOrder: "set (drawOrder tps) = set (map snd tps)"
  by (simp add: drawOrder_def)

lemma foldl_place_size:
  "width (foldl (place pf) cv ps) = width cv \<and> height (foldl (place pf) cv ps) = height cv"
  by (induction ps arbitrary: cv) (simp_all add: place_def drawImageScaled_def)

lemma foldl_place_untouched:
  assumes "untouched ps X Y"
  shows "pixel (foldl (place pf) cv ps) X Y = pixel cv X Y"
  using assms
  by (induction ps arbitrary: cv) (simp_all add: untouched_def place_def drawImageScaled_def)

lemma filled_pixel:
  assumes "X < w" and "Y < h"
  shows "pixel (fillRect pf (createCanvas w h) col 0 0 w h) X Y = col"
  using assms by (simp add: fillRect_def createCanvas_def over_def transparent_def)

lemma filled_size:
  "width (fillRect pf (createCanvas w h) col 0 0 w h) = w"
  "height (fillRect pf (createCanvas w h) col 0 0 w h) = h"
  by (simp_all add: fillRect_def createCanvas_def)

lemma mixCanvas_too_large:
  assumes "context2d pf"
    and "real finalWidth \<le> padding * (real cols + 1) \<or> real finalHeight \<le> padding * (real rows + 1)"
  shows "mixCanvas pf gridImages cols rows finalWidth finalHeight padding backgroundColor =
           Inr (fillRect pf (createCanvas finalWidth finalHeight) (fillColor pf backgroundColor)
                  0 0 finalWidth finalHeight)"
  using assms by (auto simp: mixCanvas_def Let_def)

lemma mixCanvas_cells:
  assumes "context2d pf"
    and "padding * (real cols + 1) < real finalWidth" and "padding * (real rows + 1) < real finalHeight"
    and "rows \<le> length gridImages"
  shows "mixCanvas pf gridImages cols rows finalWidth finalHeight padding backgroundColor =
           Inr (foldl (place pf)
                  (fillRect pf (createCanvas finalWidth finalHeight) (fillColor pf backgroundColor)
                     0 0 finalWidth finalHeight)
                  (drawOrder (concat (map (\<lambda>r. concat (map
                     (\<lambda>c. map (Pair (loadTime pf r c))
                        (cellDraws pf gridImages padding
                           ((real finalWidth - padding * (real cols + 1)) / real cols)
                           ((real finalHeight - padding * (real rows + 1)) / real rows) r c))
                     [0..<cols])) [0..<rows]))))"
proof -
  have "\<forall>r \<in> set [0..<rows]. r < length gridImages"
    using assms(4) by simp
  note rl = rowLoop_rows [OF this]
  show ?thesis
    using assms(1,2,3) by (simp add: mixCanvas_def Let_def rl)
qed

lemma cellDraws_member:
  "q \<in> set (cellDraws pf gridImages padding cw ch r c) \<longleftrightarrow>
     c < length (gridImages ! r) \<and>
     (\<exists>src img. (gridImages ! r) ! c = Some src \<and> src \<noteq> [] \<and> decodeImage pf src = Some img \<and>
        q = \<lparr>p_img = img, p_dx = padding + real c * (cw + padding),
             p_dy = padding + real r * (ch + padding), p_dw = cw, p_dh = ch\<rparr>)"
proof (cases "c < length (gridImages ! r)")
  case False
  then show ?thesis by (simp add: cellDraws_def)
next
  case True
  show ?thesis
  proof (cases "(gridImages ! r) ! c")
    case None
    with True show ?thesis by (simp add: cellDraws_def)
  next
    case (Some src)
    show ?thesis
    proof (cases "src = []")
      case True
      with Some \<open>c < length (gridImages ! r)\<close> show ?thesis by (simp add: cellDraws_def)
    next
      case False
      show ?thesis
      proof (cases "decodeImage pf src")
        case None
        with Some False \<open>c < length (gridImages ! r)\<close> show ?thesis by (simp add: cellDraws_def)
      next
        case (Some img)
        with \<open>(gridImages ! r) ! c = Some src\<close> False \<open>c < length (gridImages ! r)\<close>
        show ?thesis by (simp add: cellDraws_def)
      qed
    qed
  qed
qed

lemma set_concat_grid:
  "q \<in> set (concat (map (\<lambda>r. concat (map (f r) [0..<m])) [0..<n])) \<longleftrightarrow>
     (\<exists>r c. r < n \<and> c < m \<and> q \<in> set (f r c))"
proof -
  have "q \<in> set (concat (map (\<lambda>r. concat (map (f r) [0..<m])) [0..<n])) \<longleftrightarrow>
          (\<exists>r \<in> {0..<n}. \<exists>c \<in> {0..<m}. q \<in> set (f r c))"
    by simp
  also have "\<dots> \<longleftrightarrow> (\<exists>r c. r < n \<and> c < m \<and> q \<in> set (f r c))"
    unfolding Bex_def atLeastLessThan_iff by blast
  finally show ?thesis .
qed

lemma cellRect_eq:
  "cellRect cols rows finalWidth finalHeight p r c img =
     \<lparr>p_img = img,
      p_dx = p + real c * ((real finalWidth - p * (real cols + 1)) / real cols + p),
      p_dy = p + real r * ((real finalHeight - p * (real rows + 1)) / real rows + p),
      p_dw = (real finalWidth - p * (real cols + 1)) / real cols,
      p_dh = (real finalHeight - p * (real rows + 1)) / real rows\<rparr>"
  by (simp add: cellRect_def Let_def)

text \<open>
  C8. If \<open>padding * (cols + 1) \<ge> finalWidth\<close> or \<open>padding * (rows + 1) \<ge> finalHeight\<close>,
  \<open>mixImages\<close> (given a 2D context) does not fail: it returns the encoding of a
  \<open>finalWidth x finalHeight\<close> canvas on which only the background was filled, so that
  every pixel has the background colour and no cell image is drawn.
\<close>

theorem mixImages_padding_too_large:
  assumes "context2d pf"
    and "real finalWidth \<le> padding * (real cols + 1) \<or> real finalHeight \<le> padding * (real rows + 1)"
  shows "\<exists>cv. mixImages pf gridImages cols rows finalWidth finalHeight padding backgroundColor
                 = Inr (toDataURL pf cv) \<and>
              cv = fillRect pf (createCanvas finalWidth finalHeight) (fillColor pf backgroundColor)
                     0 0 finalWidth finalHeight \<and>
              width cv = finalWidth \<and> height cv = finalHeight \<and>
              (\<forall>X Y. X < finalWidth \<and> Y < finalHeight
                      \<longrightarrow> pixel cv X Y = fillColor pf backgroundColor)"
  using mixCanvas_too_large [OF assms, of gridImages backgroundColor]
  by (simp add: mixImages_def filled_size filled_pixel)

theorem mixImages_padding_too_large_witness:
  "context2d demoPlatform \<and>
   real 100 \<le> 30 * (real 4 + 1) \<and>
   (\<exists>cv. mixImages demoPlatform demoGrid 4 2 100 100 30 ''#111827''
                 = Inr (toDataURL demoPlatform cv) \<and>
          cv = fillRect demoPlatform (createCanvas 100 100) (fillColor demoPlatform ''#111827'')
                 0 0 100 100 \<and>
          width cv = 100 \<and> height cv = 100 \<and>
          (\<forall>X Y. X < 100 \<and> Y < 100 \<longrightarrow> pixel cv X Y = fillColor demoPlatform ''#111827''))"
proof -
  have h: "real 100 \<le> 30 * (real 4 + 1)" by simp
  then have h': "real 100 \<le> 30 * (real 4 + 1) \<or> real 100 \<le> 30 * (real 2 + 1)" ..
  note inst = mixImages_padding_too_large [OF demo_context h', of demoGrid "''#111827''"]
  show ?thesis
    by (rule conjI [OF demo_context conjI [OF h inst]])
qed

text \<open>
  C1, as the code has it. For every grid of \<open>rows x cols\<close> cells, target size, padding
  \<open>p \<ge> 0\<close> and background colour, \<open>mixImages\<close> (given a 2D context) returns the
  encoding of a canvas of exactly \<open>finalWidth x finalHeight\<close> pixels. Whenever
  \<open>finalWidth - p (cols + 1) > 0\<close> and \<open>finalHeight - p (rows + 1) > 0\<close>, the canvas is
  the filled background with a list of images drawn onto it, in which the image of
  each non-empty cell \<open>(r, c)\<close> whose URL loads is drawn scaled to
  \<open>cellWidth x cellHeight\<close> at \<open>x = p + c (cellWidth + p)\<close>,
  \<open>y = p + r (cellHeight + p)\<close>, nothing else is drawn, and every pixel that no drawn
  rectangle touches has the background colour. A non-empty cell whose image does not load
  is skipped.
\<close>

theorem mixImages_grid_layout:
  assumes "context2d pf" and "length gridImages = rows"
    and "list_all (\<lambda>row. length row = cols) gridImages" and "0 \<le> p"
  shows "\<exists>cv. mixImages pf gridImages cols rows finalWidth finalHeight p backgroundColor
                 = Inr (toDataURL pf cv) \<and>
              width cv = finalWidth \<and> height cv = finalHeight \<and>
              (0 < real finalWidth - p * (real cols + 1) \<and>
               0 < real finalHeight - p * (real rows + 1) \<longrightarrow>
               (\<exists>ps. cv = foldl (place pf)
                             (fillRect pf (createCanvas finalWidth finalHeight)
                                (fillColor pf backgroundColor) 0 0 finalWidth finalHeight) ps \<and>
                  (\<forall>r c src img. r < rows \<and> c < cols \<and> (gridImages ! r) ! c = Some src \<and>
                       src \<noteq> [] \<and> decodeImage pf src = Some img
                       \<longrightarrow> cellRect cols rows finalWidth finalHeight p r c img \<in> set ps) \<and>
                  (\<forall>q \<in> set ps. \<exists>r c src. r < rows \<and> c < cols \<and>
                       (gridImages ! r) ! c = Some src \<and> src \<noteq> [] \<and>
                       decodeImage pf src = Some (p_img q) \<and>
                       q = cellRect cols rows finalWidth finalHeight p r c (p_img q)) \<and>
                  (\<forall>X Y. X < finalWidth \<and> Y < finalHeight \<and> untouched ps X Y
                       \<longrightarrow> pixel cv X Y = fillColor pf backgroundColor)))"
proof (cases "0 < real finalWidth - p * (real cols + 1) \<and> 0 < real finalHeight - p * (real rows + 1)")
  case False
  then have "real finalWidth \<le> p * (real cols + 1) \<or> real finalHeight \<le> p * (real rows + 1)"
    by auto
  from mixCanvas_too_large [OF assms(1) this, of gridImages backgroundColor]
  have "mixImages pf gridImages cols rows finalWidth finalHeight p backgroundColor
          = Inr (toDataURL pf (fillRect pf (createCanvas finalWidth finalHeight)
                   (fillColor pf backgroundColor) 0 0 finalWidth finalHeight))"
    by (simp add: mixImages_def)
  with False filled_size [of pf finalWidth finalHeight "fillColor pf backgroundColor"]
  show ?thesis by blast
next
  case True
  let ?cw = "(real finalWidth - p * (real cols + 1)) / real cols"
  let ?ch = "(real finalHeight - p * (real rows + 1)) / real rows"
  let ?filled = "fillRect pf (createCanvas finalWidth finalHeight) (fillColor pf backgroundColor)
                   0 0 finalWidth finalHeight"
  let ?tps = "concat (map (\<lambda>r. concat (map (\<lambda>c. map (Pair (loadTime pf r c))
                 (cellDraws pf gridImages p ?cw ?ch r c)) [0..<cols])) [0..<rows])"
  let ?ps = "drawOrder ?tps"
  let ?cv = "foldl (place pf) ?filled ?ps"
  have rowlen: "\<And>r. r < rows \<Longrightarrow> length (gridImages ! r) = cols"
    using assms(2,3) by (simp add: list_all_length)
  have canvas: "mixCanvas pf gridImages cols rows finalWidth finalHeight p backgroundColor = Inr ?cv"
    using mixCanvas_cells [OF assms(1), of p cols finalWidth rows finalHeight gridImages backgroundColor]
      True assms(2) by simp
  then have res: "mixImages pf gridImages cols rows finalWidth finalHeight p backgroundColor
                    = Inr (toDataURL pf ?cv)"
    by (simp add: mixImages_def)
  have size: "width ?cv = finalWidth \<and> height ?cv = finalHeight"
    by (simp add: foldl_place_size filled_size)
  have mem: "q \<in> set ?ps \<longleftrightarrow>
      (\<exists>r c src img. r < rows \<and> c < cols \<and> (gridImages ! r) ! c = Some src \<and> src \<noteq> [] \<and>
          decodeImage pf src = Some img \<and> q = cellRect cols rows finalWidth finalHeight p r c img)" for q
  proof -
    have "q \<in> set ?ps \<longleftrightarrow>
            q \<in> set (concat (map (\<lambda>r. concat (map (cellDraws pf gridImages p ?cw ?ch r) [0..<cols]))
                                [0..<rows]))"
      unfolding set_drawOrder timed_draws ..
    also have "\<dots> \<longleftrightarrow>
            (\<exists>r c. r < rows \<and> c < cols \<and> q \<in> set (cellDraws pf gridImages p ?cw ?ch r c))"
      by (rule set_concat_grid)
    also have "\<dots> \<longleftrightarrow>
            (\<exists>r c. r < rows \<and> c < cols \<and>
               (\<exists>src img. (gridImages ! r) ! c = Some src \<and> src \<noteq> [] \<and>
                  decodeImage pf src = Some img \<and>
                  q = cellRect cols rows finalWidth finalHeight p r c img))"
      unfolding cellDraws_member cellRect_eq using rowlen by metis
    also have "\<dots> \<longleftrightarrow>
            (\<exists>r c src img. r < rows \<and> c < cols \<and> (gridImages ! r) ! c = Some src \<and> src \<noteq> [] \<and>
               decodeImage pf src = Some img \<and>
               q = cellRect cols rows finalWidth finalHeight p r c img)"
      by blast
    finally show ?thesis .
  qed
  have drawn: "\<forall>r c src img. r < rows \<and> c < cols \<and> (gridImages ! r) ! c = Some src \<and>
                 src \<noteq> [] \<and> decodeImage pf src = Some img
                 \<longrightarrow> cellRect cols rows finalWidth finalHeight p r c img \<in> set ?ps"
    unfolding mem by blast
  have only: "\<forall>q \<in> set ?ps. \<exists>r c src. r < rows \<and> c < cols \<and>
                 (gridImages ! r) ! c = Some src \<and> src \<noteq> [] \<and>
                 decodeImage pf src = Some (p_img q) \<and>
                 q = cellRect cols rows finalWidth finalHeight p r c (p_img q)"
  proof
    fix q assume "q \<in> set ?ps"
    then obtain r c src img where *: "r < rows" "c < cols" "(gridImages ! r) ! c = Some src"
      "src \<noteq> []" "decodeImage pf src = Some img"
      "q = cellRect cols rows finalWidth finalHeight p r c img"
      unfolding mem by blast
    then have pq: "p_img q = img" by (simp add: cellRect_eq)
    show "\<exists>r c src. r < rows \<and> c < cols \<and>
                 (gridImages ! r) ! c = Some src \<and> src \<noteq> [] \<and>
                 decodeImage pf src = Some (p_img q) \<and>
                 q = cellRect cols rows finalWidth finalHeight p r c (p_img q)"
    proof (rule exI [of _ r], rule exI [of _ c], rule exI [of _ src])
      show "r < rows \<and> c < cols \<and> (gridImages ! r) ! c = Some src \<and> src \<noteq> [] \<and>
            decodeImage pf src = Some (p_img q) \<and>
            q = cellRect cols rows finalWidth finalHeight p r c (p_img q)"
        unfolding pq by (intro conjI *)
    qed
  qed
  have bgp: "\<forall>X Y. X < finalWidth \<and> Y < finalHeight \<and> untouched ?ps X Y
                \<longrightarrow> pixel ?cv X Y = fillColor pf backgroundColor"
    by (simp add: foldl_place_untouched filled_pixel)
  show ?thesis
    using res size drawn only bgp by blast
qed

lemma demo_rowLoop:
  "rowLoop demoPlatform demoGrid 10 35 35 2 [0..<2] =
     Inr [(0, cellRect 2 2 100 100 10 0 0 demoImage), (0, cellRect 2 2 100 100 10 1 1 whiteImage)]"
proof -
  have u: "[0..<2] = [0, Suc 0]" by (simp add: upt_rec)
  show ?thesis
    by (simp add: u cellPlacement_def cellAt_def loadImage_def demoPlatform_def demoGrid_def
          cellRect_eq)
qed

lemma demo_mixCanvas:
  "mixCanvas demoPlatform demoGrid 2 2 100 100 10 ''#111827'' =
     Inr (foldl (place demoPlatform)
            (fillRect demoPlatform (createCanvas 100 100) (fillColor demoPlatform ''#111827'')
               0 0 100 100)
            [cellRect 2 2 100 100 10 0 0 demoImage, cellRect 2 2 100 100 10 1 1 whiteImage])"
proof -
  have "mixCanvas demoPlatform demoGrid 2 2 100 100 10 ''#111827'' =
     (case rowLoop demoPlatform demoGrid 10 35 35 2 [0..<2] of
        Inl e \<Rightarrow> Inl e
      | Inr ps \<Rightarrow> Inr (foldl (place demoPlatform)
            (fillRect demoPlatform (createCanvas 100 100) (fillColor demoPlatform ''#111827'')
               0 0 100 100) (drawOrder ps)))"
    using demo_context by (simp add: mixCanvas_def Let_def)
  moreover have "drawOrder [(0, cellRect 2 2 100 100 10 0 0 demoImage),
                            (0, cellRect 2 2 100 100 10 1 1 whiteImage)]
                   = [cellRect 2 2 100 100 10 0 0 demoImage, cellRect 2 2 100 100 10 1 1 whiteImage]"
    by (simp add: drawOrder_def)
  ultimately show ?thesis
    by (simp only: demo_rowLoop sum.case)
qed

text \<open>In the example grid the cell \<open>(1, 0)\<close> holds a URL that does not load. The
  collage is returned, with the two images that load drawn and nothing drawn at the
  rectangle of that cell, \<open>x = 10\<close>, \<open>y = 55\<close>.\<close>

theorem mixImages_unloaded_cell_counterexample:
  "(demoGrid ! 1) ! 0 = Some ''missing'' \<and>
   mixImages demoPlatform demoGrid 2 2 100 100 10 ''#111827'' =
     Inr (toDataURL demoPlatform
       (foldl (place demoPlatform)
            (fillRect demoPlatform (createCanvas 100 100) (fillColor demoPlatform ''#111827'')
               0 0 100 100)
            [cellRect 2 2 100 100 10 0 0 demoImage, cellRect 2 2 100 100 10 1 1 whiteImage])) \<and>
   \<not> (\<exists>img. cellRect 2 2 100 100 10 1 0 img
          \<in> set [cellRect 2 2 100 100 10 0 0 demoImage, cellRect 2 2 100 100 10 1 1 whiteImage])"
proof -
  have a: "(demoGrid ! 1) ! 0 = Some ''missing''"
    by (simp add: demoGrid_def)
  have b: "mixImages demoPlatform demoGrid 2 2 100 100 10 ''#111827'' =
     Inr (toDataURL demoPlatform
       (foldl (place demoPlatform)
            (fillRect demoPlatform (createCanvas 100 100) (fillColor demoPlatform ''#111827'')
               0 0 100 100)
            [cellRect 2 2 100 100 10 0 0 demoImage, cellRect 2 2 100 100 10 1 1 whiteImage]))"
    by (simp only: mixImages_def demo_mixCanvas sum.case)
  have c: "\<not> (\<exists>img. cellRect 2 2 100 100 10 1 0 img
          \<in> set [cellRect 2 2 100 100 10 0 0 demoImage, cellRect 2 2 100 100 10 1 1 whiteImage])"
    by (simp add: cellRect_eq)
  show ?thesis
    by (rule conjI [OF a conjI [OF b c]])
qed

theorem mixImages_grid_layout_witness:
  "context2d demoPlatform \<and> length demoGrid = 2 \<and>
   list_all (\<lambda>row. length row = 2) demoGrid \<and> (0::real) \<le> 10 \<and>
   (\<exists>cv. mixImages demoPlatform demoGrid 2 2 100 100 10 ''#111827''
                 = Inr (toDataURL demoPlatform cv) \<and>
              width cv = 100 \<and> height cv = 100 \<and>
              (0 < real 100 - 10 * (real 2 + 1) \<and>
               0 < real 100 - 10 * (real 2 + 1) \<longrightarrow>
               (\<exists>ps. cv = foldl (place demoPlatform)
                             (fillRect demoPlatform (createCanvas 100 100)
                                (fillColor demoPlatform ''#111827'') 0 0 100 100) ps \<and>
                  (\<forall>r c src img. r < 2 \<and> c < 2 \<and> (demoGrid ! r) ! c = Some src \<and>
                       src \<noteq> [] \<and> decodeImage demoPlatform src = Some img
                       \<longrightarrow> cellRect 2 2 100 100 10 r c img \<in> set ps) \<and>
                  (\<forall>q \<in> set ps. \<exists>r c src. r < 2 \<and> c < 2 \<and>
                       (demoGrid ! r) ! c = Some src \<and> src \<noteq> [] \<and>
                       decodeImage demoPlatform src = Some (p_img q) \<and>
                       q = cellRect 2 2 100 100 10 r c (p_img q)) \<and>
                  (\<forall>X Y. X < 100 \<and> Y < 100 \<and> untouched ps X Y
                       \<longrightarrow> pixel cv X Y = fillColor demoPlatform ''#111827''))))"
proof -
  have h2: "length demoGrid = 2" by (simp add: demoGrid_def)
  have h3: "list_all (\<lambda>row. length row = 2) demoGrid" by (simp add: demoGrid_def)
  have h4: "(0::real) \<le> 10" by simp
  note inst = mixImages_grid_layout [OF demo_context h2 h3 h4, of 100 100 "''#111827''"]
  show ?thesis
    by (rule conjI [OF demo_context conjI [OF h2 conjI [OF h3 conjI [OF h4 inst]]]])
qed

section \<open>The order of the draws\<close>






subsection \<open>A padding of at least one pixel keeps the cells apart\<close>




subsection \<open>What the loops record\<close>




subsection \<open>The loops under another completion order\<close>











subsection \<open>The single-image transforms do not wait for more than one load\<close>
















section \<open>Failure handling\<close>

















end
